theory Spec2Isabelle
  imports Complex_Main
begin

section \<open>Values exchanged with the outside world\<close>

text \<open>
  The bot of \<^verbatim>\<open>src/bot.py\<close> talks to three external services (the token API, the
  GitHub file store, the like API) and to the Telegram notifier. What comes back from
  them is data of the model: parsed JSON values, HTTP responses and the exceptions the
  \<^verbatim>\<open>requests\<close> library raises.

  A JSON object is kept as the list of its key/value pairs in the order of the text;
  a lookup takes the last binding of a key, as \<^verbatim>\<open>json.loads\<close> does. Non-finite
  floats are not represented.
\<close>

datatype json =
    JNull
  | JBool bool
  | JInt int
  | JFloat real
  | JStr string
  | JArr "json list"
  | JObj "(string \<times> json) list"

definition dict_get :: "(string \<times> json) list \<Rightarrow> string \<Rightarrow> json option" where
  "dict_get kvs k = map_of (rev kvs) k"

text \<open>Python's truth value of a parsed JSON value (\<^verbatim>\<open>if x:\<close>).\<close>

fun truthy :: "json \<Rightarrow> bool" where
  "truthy JNull = False"
| "truthy (JBool b) = b"
| "truthy (JInt i) = (i \<noteq> 0)"
| "truthy (JFloat r) = (r \<noteq> 0)"
| "truthy (JStr s) = (s \<noteq> [])"
| "truthy (JArr xs) = (xs \<noteq> [])"
| "truthy (JObj kvs) = (kvs \<noteq> [])"

text \<open>The truth value of \<^verbatim>\<open>d.get(k)\<close>: a missing key gives \<^verbatim>\<open>None\<close>, which is false.\<close>

definition truthy_opt :: "json option \<Rightarrow> bool" where
  "truthy_opt v = (case v of None \<Rightarrow> False | Some x \<Rightarrow> truthy x)"

text \<open>
  The exceptions of the model. \<open>OtherException\<close> carries the text that
  \<^verbatim>\<open>str(e)\<close> gives.
\<close>

datatype exn =
    KeyError string
  | AttributeError
  | IndexError
  | UnknownObjectException
  | ApiTelegramException
  | OtherException string

text \<open>
  An HTTP response as the code reads it: \<^verbatim>\<open>status_code\<close>, \<^verbatim>\<open>text\<close>, and what
  \<^verbatim>\<open>response.json()\<close> does: it returns the parsed body (\<open>Inr\<close>) or raises, with
  the text of the decoding error (\<open>Inl\<close>).
\<close>

record response =
  status_code :: int
  body_text :: string
  body_json :: "string + json"

text \<open>
  The arguments of an exception (\<^verbatim>\<open>e.args\<close>), as far as the code inspects them: it
  asks whether \<^verbatim>\<open>e.args[0]\<close> is a urllib3 \<^verbatim>\<open>ProtocolError\<close> and whether that
  error's \<^verbatim>\<open>args[1]\<close> is a \<^verbatim>\<open>ConnectionResetError\<close>.
\<close>

datatype exc_arg =
    ArgProtocolError "exc_arg list"
  | ArgConnectionResetError
  | ArgOther

text \<open>
  What \<^verbatim>\<open>requests.get(url, timeout=60)\<close> does: it returns a response, or raises
  \<^verbatim>\<open>Timeout\<close>, \<^verbatim>\<open>ConnectionError\<close> (with its \<^verbatim>\<open>args\<close>) or another exception.
  Every exception carries its \<^verbatim>\<open>str(e)\<close>.
\<close>

datatype http_outcome =
    Response response
  | Timeout string
  | ConnectionError "exc_arg list" string
  | RequestFailed string

section \<open>Decimal rendering of integers\<close>

definition digit_char :: "nat \<Rightarrow> char" where
  "digit_char d = char_of (48 + d)"

function digits_nat :: "nat \<Rightarrow> string" where
  "digits_nat n = (if n < 10 then [digit_char n] else digits_nat (n div 10) @ [digit_char (n mod 10)])"
  by pat_completeness auto
termination
  by (relation "measure id") auto

declare digits_nat.simps [simp del]

text \<open>\<^verbatim>\<open>f"{n}"\<close> for a Python int.\<close>

definition str_int :: "int \<Rightarrow> string" where
  "str_int i = (if i < 0 then CHR ''-'' # digits_nat (nat (- i)) else digits_nat (nat i))"

section \<open>Fetching one token: \<^verbatim>\<open>_fetch_single_jwt_token\<close>\<close>

text \<open>
  \<^verbatim>\<open>token_str\<close> after the two shape tests: the value under \<^verbatim>\<open>token\<close> of a dict, or
  of the dict that is the first element of a non-empty list; \<^verbatim>\<open>None\<close> otherwise.
\<close>

definition token_str_of :: "json \<Rightarrow> json option" where
  "token_str_of token_data =
     (case token_data of
        JObj kvs \<Rightarrow> dict_get kvs ''token''
      | JArr (JObj kvs # rest) \<Rightarrow> dict_get kvs ''token''
      | _ \<Rightarrow> None)"

text \<open>
  The handler of \<^verbatim>\<open>requests.exceptions.ConnectionError\<close>. The index expressions
  \<^verbatim>\<open>e.args[0]\<close> and \<^verbatim>\<open>e.args[0].args[1]\<close> raise \<^verbatim>\<open>IndexError\<close> when the tuple is too
  short; raised inside a handler, that exception leaves the function.
\<close>

definition connection_error_reason :: "exc_arg list \<Rightarrow> string \<Rightarrow> exn + string" where
  "connection_error_reason args e_str =
     (case args of
        [] \<Rightarrow> Inl IndexError
      | ArgProtocolError pargs # rest \<Rightarrow>
          (case pargs of
             a0 # a1 # others \<Rightarrow>
               (if a1 = ArgConnectionResetError then Inr ''Connection Reset by Server''
                else Inr (''Connection Error: '' @ e_str))
           | _ \<Rightarrow> Inl IndexError)
      | other # rest \<Rightarrow> Inr (''Connection Error: '' @ e_str))"

text \<open>
  The function returns the pair \<^verbatim>\<open>(result_dict, error_reason)\<close>, or raises. The
  parameter \<open>py_str\<close> is Python's \<^verbatim>\<open>str\<close> on parsed JSON; \<open>outcome\<close> is what the GET
  of \<^verbatim>\<open>api_url?uid=..&password=..\<close> does, consulted only when a request is made.
\<close>

definition fetch_single_jwt_token ::
  "(json \<Rightarrow> string) \<Rightarrow> json \<Rightarrow> http_outcome \<Rightarrow> exn + (json option \<times> string option)" where
  "fetch_single_jwt_token py_str account outcome =
     (case account of
        JObj kvs \<Rightarrow>
          (if \<not> truthy_opt (dict_get kvs ''uid'') \<or> \<not> truthy_opt (dict_get kvs ''password'')
           then Inr (None, Some ''Missing uid or password'')
           else
             (case outcome of
                Response r \<Rightarrow>
                  (if status_code r = 200 then
                     (case body_json r of
                        Inl decode_err \<Rightarrow> Inr (None, Some (''General Error: '' @ decode_err))
                      | Inr token_data \<Rightarrow>
                          (case token_str_of token_data of
                             Some token_str \<Rightarrow>
                               (if truthy token_str
                                then Inr (Some (JObj [(''token'', token_str)]), None)
                                else Inr (None, Some (''Token key/format invalid: '' @ take 100 (py_str token_data))))
                           | None \<Rightarrow>
                               Inr (None, Some (''Token key/format invalid: '' @ take 100 (py_str token_data)))))
                   else Inr (None, Some (''API failed (Status: '' @ str_int (status_code r) @ '')'')))
              | Timeout e_str \<Rightarrow> Inr (None, Some ''Timeout (60s)'')
              | ConnectionError args e_str \<Rightarrow>
                  (case connection_error_reason args e_str of
                     Inl ex \<Rightarrow> Inl ex
                   | Inr reason \<Rightarrow> Inr (None, Some reason))
              | RequestFailed e_str \<Rightarrow> Inr (None, Some (''General Error: '' @ e_str))))
      | _ \<Rightarrow> Inl AttributeError)"

section \<open>The world the pipeline runs in\<close>

text \<open>
  The texts the bot sends, by kind and with the values that are formatted into them.
\<close>

datatype msg =
    MsgStartingJwt nat
  | MsgProcessed nat nat
  | MsgJwtComplete nat
  | MsgJwtFailures "(string option \<times> nat) list"
  | MsgStep1
  | MsgGuestAccountsNotSet
  | MsgStep1Result nat nat nat
  | MsgNoTokens
  | MsgStep2
  | MsgStep2Complete string
  | MsgStep2Error exn
  | MsgWaiting60
  | MsgStep3
  | MsgNoTargets
  | MsgRetryNotice string
  | MsgResultsHeader
  | MsgChunk string
  | MsgTaskComplete nat nat string nat nat
  | MsgTaskFailed exn
  | MsgSettingsIncomplete
  | MsgAlreadyRunning
  | MsgStarted
  | MsgNotRunning
  | MsgStopping
  | MsgCycleStarting
  | MsgCycleComplete
  | MsgThreadStopped

text \<open>What one call of the notifier (\<^verbatim>\<open>send_message\<close>, \<^verbatim>\<open>edit_message_text\<close>) does.\<close>

datatype notify_result = Delivered | RaisesApi | RaisesOther string

text \<open>The observable effects of a run, in order.\<close>

datatype event =
    Sent msg
  | Edited msg
  | Slept nat
  | LikeRequest string
  | StoreGetRepo
  | StoreGetContents string
  | StoreUpdate string string nat
  | StoreCreate string string

text \<open>
  The environment is read-only: the \<open>k\<close>-th call of the notifier, the fetch of the
  \<open>i\<close>-th submitted account, the order in which \<^verbatim>\<open>as_completed\<close> yields the futures,
  the \<open>k\<close>-th request to the like API, a fault injected into the \<open>k\<close>-th call of the
  GitHub client, and the library functions \<^verbatim>\<open>str\<close> and \<^verbatim>\<open>json.dumps(.., indent=4)\<close>.
\<close>

record env =
  notifier :: "nat \<Rightarrow> notify_result"
  token_api :: "nat \<Rightarrow> http_outcome"
  completion :: "nat list"
  like_server :: "nat \<Rightarrow> http_outcome"
  store_fault :: "nat \<Rightarrow> exn option"
  py_str :: "json \<Rightarrow> string"
  dumps :: "json list \<Rightarrow> string"

text \<open>
  The state that changes: the trace of effects, how many calls each service has seen,
  and the files of the GitHub repository (content and version) by path.
\<close>

record world =
  trace :: "event list"
  notifier_calls :: nat
  like_calls :: nat
  store_calls :: nat
  files :: "string \<Rightarrow> (string \<times> nat) option"
  next_sha :: nat

type_synonym 'a io = "world \<Rightarrow> (exn + 'a) \<times> world"

definition notify :: "env \<Rightarrow> (msg \<Rightarrow> event) \<Rightarrow> msg \<Rightarrow> unit io" where
  "notify e kind m w =
     (let k = notifier_calls w; w1 = w\<lparr>notifier_calls := k + 1\<rparr> in
      case notifier e k of
        Delivered \<Rightarrow> (Inr (), w1\<lparr>trace := trace w1 @ [kind m]\<rparr>)
      | RaisesApi \<Rightarrow> (Inl ApiTelegramException, w1)
      | RaisesOther s \<Rightarrow> (Inl (OtherException s), w1))"

definition send_message :: "env \<Rightarrow> msg \<Rightarrow> unit io" where
  "send_message e m = notify e Sent m"

definition edit_message_text :: "env \<Rightarrow> msg \<Rightarrow> unit io" where
  "edit_message_text e m = notify e Edited m"

definition sleep :: "nat \<Rightarrow> world \<Rightarrow> world" where
  "sleep n w = w\<lparr>trace := trace w @ [Slept n]\<rparr>"

section \<open>Fetching all tokens: \<^verbatim>\<open>_fetch_jwt_concurrently_superbot_style\<close>\<close>

text \<open>
  The submission loop: an account with a true \<^verbatim>\<open>uid\<close> and a true \<^verbatim>\<open>password\<close> is
  counted in \<^verbatim>\<open>total_to_process\<close> and submitted. \<^verbatim>\<open>acc.get\<close> on a list entry that
  is not a dict raises \<^verbatim>\<open>AttributeError\<close>.
\<close>

definition both_present :: "json \<Rightarrow> bool" where
  "both_present acc =
     (case acc of
        JObj kvs \<Rightarrow> truthy_opt (dict_get kvs ''uid'') \<and> truthy_opt (dict_get kvs ''password'')
      | _ \<Rightarrow> False)"

fun submit_loop :: "json list \<Rightarrow> nat \<times> json list \<Rightarrow> exn + (nat \<times> json list)" where
  "submit_loop [] st = Inr st"
| "submit_loop (acc # accs) (total_to_process, futures) =
     (case acc of
        JObj kvs \<Rightarrow>
          (if truthy_opt (dict_get kvs ''uid'') \<and> truthy_opt (dict_get kvs ''password'')
           then submit_loop accs (total_to_process + 1, futures @ [acc])
           else submit_loop accs (total_to_process, futures))
      | _ \<Rightarrow> Inl AttributeError)"

text \<open>
  \<^verbatim>\<open>as_completed\<close> yields the pending futures in an order the program does not
  control: each pick names one of those still pending.
\<close>

definition pick_index :: "nat list \<Rightarrow> nat \<Rightarrow> nat" where
  "pick_index picks n = (case picks of [] \<Rightarrow> 0 | p # ps \<Rightarrow> p mod n)"

function as_completed :: "nat list \<Rightarrow> 'a list \<Rightarrow> 'a list" where
  "as_completed picks [] = []"
| "as_completed picks (f # fs) =
     (let i = pick_index picks (length (f # fs)) in
      (f # fs) ! i # as_completed (tl picks) (take i (f # fs) @ drop (Suc i) (f # fs)))"
  by pat_completeness auto
termination
proof (relation "measure (\<lambda>(picks, fs). length fs)")
  show "wf (measure (\<lambda>(picks :: nat list, fs :: 'a list). length fs))"
    by simp
next
  fix picks :: "nat list" and f :: 'a and fs :: "'a list" and i :: nat
  assume i: "i = pick_index picks (length (f # fs))"
  have "i < length (f # fs)"
    unfolding i by (simp add: pick_index_def split: list.splits)
  then show "((tl picks, take i (f # fs) @ drop (Suc i) (f # fs)), (picks, f # fs))
               \<in> measure (\<lambda>(picks, fs). length fs)"
    by simp
qed

text \<open>\<^verbatim>\<open>failed_reasons[r] = failed_reasons.get(r, 0) + 1\<close> on an insertion-ordered dict.\<close>

fun bump :: "'k \<Rightarrow> ('k \<times> nat) list \<Rightarrow> ('k \<times> nat) list" where
  "bump r [] = [(r, 1)]"
| "bump r ((k, c) # rest) = (if k = r then (k, c + 1) # rest else (k, c) # bump r rest)"

record tally =
  tokens_list :: "json list"
  success_count :: nat
  fail_count :: nat
  failed_reasons :: "(string option \<times> nat) list"
  processed_count :: nat

definition record_result :: "json option \<times> string option \<Rightarrow> tally \<Rightarrow> tally" where
  "record_result res t =
     (case res of (result_dict, error_reason) \<Rightarrow>
        (case result_dict of
           Some d \<Rightarrow>
             (if truthy d
              then t\<lparr>tokens_list := tokens_list t @ [d], success_count := success_count t + 1\<rparr>
              else t\<lparr>fail_count := fail_count t + 1,
                      failed_reasons := bump error_reason (failed_reasons t)\<rparr>)
         | None \<Rightarrow>
             t\<lparr>fail_count := fail_count t + 1,
                failed_reasons := bump error_reason (failed_reasons t)\<rparr>))"

text \<open>
  The progress edit swallows \<^verbatim>\<open>ApiTelegramException\<close> only; any other exception of
  the notifier leaves the function.
\<close>

definition progress_edit :: "env \<Rightarrow> msg \<Rightarrow> unit io" where
  "progress_edit e m w =
     (case edit_message_text e m w of
        (Inl ApiTelegramException, w1) \<Rightarrow> (Inr (), w1)
      | (Inl ex, w1) \<Rightarrow> (Inl ex, w1)
      | (Inr u, w1) \<Rightarrow> (Inr (), w1))"

text \<open>
  The loop over the completed futures. \<^verbatim>\<open>future.result()\<close> raises what the fetch
  raised.
\<close>

fun collect ::
  "env \<Rightarrow> bool \<Rightarrow> nat \<Rightarrow> (exn + (json option \<times> string option)) list \<Rightarrow> tally \<Rightarrow> tally io" where
  "collect e progress_msg total_to_process [] t w = (Inr t, w)"
| "collect e progress_msg total_to_process (future # rest) t w =
     (let t1 = t\<lparr>processed_count := processed_count t + 1\<rparr> in
      case future of
        Inl ex \<Rightarrow> (Inl ex, w)
      | Inr res \<Rightarrow>
          (let t2 = record_result res t1 in
           if progress_msg \<and> (processed_count t2 mod 5 = 0 \<or> processed_count t2 = total_to_process)
           then
             (case progress_edit e (MsgProcessed (processed_count t2) total_to_process) w of
                (Inl ex, w1) \<Rightarrow> (Inl ex, w1)
              | (Inr u, w1) \<Rightarrow> collect e progress_msg total_to_process rest t2 w1)
           else collect e progress_msg total_to_process rest t2 w))"

text \<open>
  The completion notice: an edit, and when the edit raises \<^verbatim>\<open>ApiTelegramException\<close>
  a plain send, which is not guarded.
\<close>

definition completion_notice :: "env \<Rightarrow> nat \<Rightarrow> unit io" where
  "completion_notice e total_to_process w =
     (case edit_message_text e (MsgJwtComplete total_to_process) w of
        (Inl ApiTelegramException, w1) \<Rightarrow> send_message e (MsgJwtComplete total_to_process) w1
      | (Inl ex, w1) \<Rightarrow> (Inl ex, w1)
      | (Inr u, w1) \<Rightarrow> (Inr (), w1))"

definition empty_tally :: tally where
  "empty_tally = \<lparr>tokens_list = [], success_count = 0, fail_count = 0,
                   failed_reasons = [], processed_count = 0\<rparr>"

definition fetch_jwt_concurrently_superbot_style ::
  "env \<Rightarrow> json list \<Rightarrow> (json list \<times> nat \<times> nat \<times> nat) io" where
  "fetch_jwt_concurrently_superbot_style e accounts w =
     (case send_message e (MsgStartingJwt (length accounts)) w of (r0, w0) \<Rightarrow>
      let progress_msg = (case r0 of Inl ex \<Rightarrow> False | Inr u \<Rightarrow> True) in
      case submit_loop accounts (0, []) of
        Inl ex \<Rightarrow> (Inl ex, w0)
      | Inr (total_to_process, submitted) \<Rightarrow>
          (let futures = map (\<lambda>(i, acc). fetch_single_jwt_token (py_str e) acc (token_api e i))
                             (enumerate 0 submitted) in
           case collect e progress_msg total_to_process (as_completed (completion e) futures)
                  empty_tally w0 of
             (Inl ex, w1) \<Rightarrow> (Inl ex, w1)
           | (Inr t, w1) \<Rightarrow>
               (case (if progress_msg then completion_notice e total_to_process w1 else (Inr (), w1)) of
                  (Inl ex, w2) \<Rightarrow> (Inl ex, w2)
                | (Inr u, w2) \<Rightarrow>
                    (let w3 = (if fail_count t > 0
                               then snd (send_message e (MsgJwtFailures (failed_reasons t)) w2)
                               else w2) in
                     (Inr (tokens_list t, success_count t, fail_count t, total_to_process), w3)))))"

section \<open>Sequencing effects that may raise\<close>

definition ret :: "'a \<Rightarrow> 'a io" where
  "ret x w = (Inr x, w)"

definition and_then :: "'a io \<Rightarrow> ('a \<Rightarrow> 'b io) \<Rightarrow> 'b io" where
  "and_then m f w = (case m w of (Inl ex, w1) \<Rightarrow> (Inl ex, w1) | (Inr x, w1) \<Rightarrow> f x w1)"

definition of_result :: "exn + 'a \<Rightarrow> 'a io" where
  "of_result r w = (r, w)"

section \<open>The session configuration\<close>

text \<open>
  The per-chat configuration is a dict with at most these seven keys; a key that is not
  set is \<open>None\<close>. \<^verbatim>\<open>config[k]\<close> raises \<^verbatim>\<open>KeyError\<close> on a missing key.
\<close>

record config =
  jwt_api :: "string option"
  like_api :: "string option"
  guest_accounts :: "json list option"
  github_token :: "string option"
  github_repo :: "string option"
  github_file_path :: "string option"
  target_uids :: "string list option"

definition empty_config :: config where
  "empty_config = \<lparr>jwt_api = None, like_api = None, guest_accounts = None, github_token = None,
                    github_repo = None, github_file_path = None, target_uids = None\<rparr>"

definition subscript :: "string \<Rightarrow> 'a option \<Rightarrow> exn + 'a" where
  "subscript key v = (case v of None \<Rightarrow> Inl (KeyError key) | Some x \<Rightarrow> Inr x)"

text \<open>\<^verbatim>\<open>_check_config_complete\<close>: every key is present with a true value.\<close>

definition check_config_complete :: "config \<Rightarrow> bool" where
  "check_config_complete c =
     ((case jwt_api c of None \<Rightarrow> False | Some s \<Rightarrow> s \<noteq> []) \<and>
      (case like_api c of None \<Rightarrow> False | Some s \<Rightarrow> s \<noteq> []) \<and>
      (case guest_accounts c of None \<Rightarrow> False | Some l \<Rightarrow> l \<noteq> []) \<and>
      (case github_token c of None \<Rightarrow> False | Some s \<Rightarrow> s \<noteq> []) \<and>
      (case github_repo c of None \<Rightarrow> False | Some s \<Rightarrow> s \<noteq> []) \<and>
      (case github_file_path c of None \<Rightarrow> False | Some s \<Rightarrow> s \<noteq> []) \<and>
      (case target_uids c of None \<Rightarrow> False | Some l \<Rightarrow> l \<noteq> []))"

section \<open>The GitHub file store\<close>

text \<open>
  The repository is an external service. Its model: a file has a content and a version
  (the blob \<^verbatim>\<open>sha\<close>); \<^verbatim>\<open>get_contents\<close> of a missing path raises
  \<^verbatim>\<open>UnknownObjectException\<close>; \<^verbatim>\<open>update_file\<close> succeeds only with the current version;
  \<^verbatim>\<open>create_file\<close> succeeds only on a missing path. Every call is recorded in the trace
  and may fail for reasons of its own, which the environment injects.
\<close>

definition store_call :: "env \<Rightarrow> event \<Rightarrow> 'a io \<Rightarrow> 'a io" where
  "store_call e ev act w =
     (let k = store_calls w; w1 = w\<lparr>store_calls := k + 1, trace := trace w @ [ev]\<rparr> in
      case store_fault e k of
        Some ex \<Rightarrow> (Inl ex, w1)
      | None \<Rightarrow> act w1)"

definition write_file :: "string \<Rightarrow> string \<Rightarrow> world \<Rightarrow> world" where
  "write_file path content w =
     w\<lparr>files := (files w)(path \<mapsto> (content, next_sha w)), next_sha := next_sha w + 1\<rparr>"

definition get_repo :: "env \<Rightarrow> unit io" where
  "get_repo e = store_call e StoreGetRepo (ret ())"

definition get_contents :: "env \<Rightarrow> string \<Rightarrow> (string \<times> nat) io" where
  "get_contents e path =
     store_call e (StoreGetContents path)
       (\<lambda>w. case files w path of
              None \<Rightarrow> (Inl UnknownObjectException, w)
            | Some file_obj \<Rightarrow> (Inr file_obj, w))"

definition update_file :: "env \<Rightarrow> string \<Rightarrow> string \<Rightarrow> nat \<Rightarrow> unit io" where
  "update_file e path content sha =
     store_call e (StoreUpdate path content sha)
       (\<lambda>w. case files w path of
              None \<Rightarrow> (Inl UnknownObjectException, w)
            | Some (old_content, current) \<Rightarrow>
                (if current = sha then (Inr (), write_file path content w)
                 else (Inl (OtherException ''409 Conflict''), w)))"

definition create_file :: "env \<Rightarrow> string \<Rightarrow> string \<Rightarrow> unit io" where
  "create_file e path content =
     store_call e (StoreCreate path content)
       (\<lambda>w. case files w path of
              None \<Rightarrow> (Inr (), write_file path content w)
            | Some file_obj \<Rightarrow> (Inl (OtherException ''422 Unprocessable Entity''), w))"

section \<open>Step 2 of the task: updating GitHub\<close>

text \<open>
  The statements of the inner \<^verbatim>\<open>try\<close> of \<^verbatim>\<open>_run_task_logic\<close> that compute
  \<^verbatim>\<open>github_status_message\<close>. The handler of \<^verbatim>\<open>UnknownObjectException\<close> guards the read
  and the update alike.
\<close>

definition create_token_file :: "env \<Rightarrow> string \<Rightarrow> string \<Rightarrow> string io" where
  "create_token_file e file_path new_content =
     and_then (create_file e file_path new_content) (\<lambda>u. ret ''Created'')"

definition github_update :: "env \<Rightarrow> config \<Rightarrow> json list \<Rightarrow> string io" where
  "github_update e config token_dicts =
     and_then (of_result (subscript ''github_token'' (github_token config))) (\<lambda>token.
     and_then (of_result (subscript ''github_repo'' (github_repo config))) (\<lambda>repo_name.
     and_then (get_repo e) (\<lambda>repo.
     and_then (of_result (subscript ''github_file_path'' (github_file_path config))) (\<lambda>file_path.
       let new_content = dumps e token_dicts in
       (\<lambda>w. case get_contents e file_path w of
              (Inr (content, sha), w1) \<Rightarrow>
                (if content \<noteq> new_content then
                   (case update_file e file_path new_content sha w1 of
                      (Inr u, w2) \<Rightarrow> (Inr ''Updated'', w2)
                    | (Inl UnknownObjectException, w2) \<Rightarrow> create_token_file e file_path new_content w2
                    | (Inl ex, w2) \<Rightarrow> (Inl ex, w2))
                 else (Inr ''Unchanged'', w1))
            | (Inl UnknownObjectException, w1) \<Rightarrow> create_token_file e file_path new_content w1
            | (Inl ex, w1) \<Rightarrow> (Inl ex, w1))))))"

text \<open>The body of the inner \<^verbatim>\<open>try\<close>: the status message is sent inside it.\<close>

definition github_try :: "env \<Rightarrow> config \<Rightarrow> json list \<Rightarrow> string io" where
  "github_try e config token_dicts =
     and_then (github_update e config token_dicts)
       (\<lambda>status. and_then (send_message e (MsgStep2Complete status)) (\<lambda>u. ret status))"

text \<open>
  The inner \<^verbatim>\<open>try\<close> with its handler: any exception of the body is reported and ends
  the task (\<open>None\<close>).
\<close>

definition github_stage :: "env \<Rightarrow> config \<Rightarrow> json list \<Rightarrow> string option io" where
  "github_stage e config token_dicts w =
     (case github_try e config token_dicts w of
        (Inr status, w1) \<Rightarrow> (Inr (Some status), w1)
      | (Inl ex, w1) \<Rightarrow> and_then (send_message e (MsgStep2Error ex)) (\<lambda>u. ret None) w1)"

section \<open>Step 3 of the task: sending likes\<close>

definition like_request :: "env \<Rightarrow> string \<Rightarrow> world \<Rightarrow> http_outcome \<times> world" where
  "like_request e uid w =
     (like_server e (like_calls w),
      w\<lparr>like_calls := like_calls w + 1, trace := trace w @ [LikeRequest uid]\<rparr>)"

definition retry_error :: string where
  "retry_error = ''Failed to retrieve initial player info.''"

text \<open>
  The retry logic, a \<^verbatim>\<open>try\<close> whose handler is \<^verbatim>\<open>except Exception: pass\<close>. It
  yields the values of \<^verbatim>\<open>response\<close> and \<^verbatim>\<open>response_text\<close> after it. Inside it raise:
  \<^verbatim>\<open>response.json()\<close> on a body that is not JSON, \<^verbatim>\<open>error_data.get\<close> on a value that is
  not a dict, the notifier, and the second request.
\<close>

definition retry_logic :: "env \<Rightarrow> string \<Rightarrow> response \<Rightarrow> world \<Rightarrow> (response \<times> string) \<times> world" where
  "retry_logic e uid response w =
     (case body_json response of
        Inl decode_err \<Rightarrow> ((response, body_text response), w)
      | Inr error_data \<Rightarrow>
          (if status_code response \<noteq> 200 then
             (case error_data of
                JObj kvs \<Rightarrow>
                  (if dict_get kvs ''error'' = Some (JStr retry_error) then
                     (case send_message e (MsgRetryNotice uid) w of
                        (Inl ex, w1) \<Rightarrow> ((response, body_text response), w1)
                      | (Inr u, w1) \<Rightarrow>
                          (case like_request e uid (sleep 120 w1) of
                             (Response response2, w2) \<Rightarrow> ((response2, body_text response2), w2)
                           | (raised, w2) \<Rightarrow> ((response, body_text response), w2)))
                   else ((response, body_text response), w))
              | _ \<Rightarrow> ((response, body_text response), w))
           else ((response, body_text response), w)))"

definition outcome_str :: "http_outcome \<Rightarrow> string" where
  "outcome_str r =
     (case r of
        Response resp \<Rightarrow> []
      | Timeout s \<Rightarrow> s
      | ConnectionError args s \<Rightarrow> s
      | RequestFailed s \<Rightarrow> s)"

definition response_line :: "string \<Rightarrow> string \<Rightarrow> string" where
  "response_line uid response_text =
     ''<b>UID '' @ uid @ '':</b>'' @ [CHR 0x0A] @ ''<pre>'' @ response_text @ ''</pre>''"

record likes =
  like_success :: nat
  like_fail :: nat
  all_like_responses :: "string list"

text \<open>One iteration of \<^verbatim>\<open>for uid in target_uids\<close>.\<close>

definition like_one :: "env \<Rightarrow> string \<Rightarrow> likes \<Rightarrow> world \<Rightarrow> likes \<times> world" where
  "like_one e uid l w =
     (case like_request e uid w of
        (Response response, w1) \<Rightarrow>
          (case retry_logic e uid response w1 of
             ((final, response_text), w2) \<Rightarrow>
               ((if status_code final = 200
                 then l\<lparr>like_success := like_success l + 1\<rparr>
                 else l\<lparr>like_fail := like_fail l + 1\<rparr>)
                  \<lparr>all_like_responses := all_like_responses l @ [response_line uid response_text]\<rparr>,
                sleep 1 w2))
      | (raised, w1) \<Rightarrow>
          (l\<lparr>like_fail := like_fail l + 1,
             all_like_responses := all_like_responses l
                @ [response_line uid (''Request Error: '' @ outcome_str raised)]\<rparr>,
           sleep 1 w1))"

fun like_all :: "env \<Rightarrow> string list \<Rightarrow> likes \<Rightarrow> world \<Rightarrow> likes \<times> world" where
  "like_all e [] l w = (l, w)"
| "like_all e (uid # uids) l w = (case like_one e uid l w of (l1, w1) \<Rightarrow> like_all e uids l1 w1)"

text \<open>The responses are sent in chunks that stay under 4000 characters.\<close>

fun chunk_loop :: "env \<Rightarrow> string list \<Rightarrow> string \<Rightarrow> string io" where
  "chunk_loop e [] current_message = ret current_message"
| "chunk_loop e (resp_line # rest) current_message =
     (if length current_message + length resp_line > 4000
      then and_then (send_message e (MsgChunk current_message)) (\<lambda>u. chunk_loop e rest resp_line)
      else chunk_loop e rest (current_message @ [CHR 0x0A] @ resp_line))"

definition send_like_responses :: "env \<Rightarrow> string list \<Rightarrow> unit io" where
  "send_like_responses e responses =
     (if responses \<noteq> [] then
        and_then (send_message e MsgResultsHeader) (\<lambda>u.
        and_then (chunk_loop e responses []) (\<lambda>current_message.
          if current_message \<noteq> [] then send_message e (MsgChunk current_message) else ret ()))
      else ret ())"

definition like_stage :: "env \<Rightarrow> config \<Rightarrow> likes io" where
  "like_stage e config =
     and_then (send_message e MsgStep3) (\<lambda>u.
     and_then (of_result (subscript ''like_api'' (like_api config))) (\<lambda>like_api_url.
       let uids = (case target_uids config of None \<Rightarrow> [] | Some l \<Rightarrow> l);
           l0 = \<lparr>like_success = 0, like_fail = 0, all_like_responses = []\<rparr> in
       and_then
         (if uids = [] then and_then (send_message e MsgNoTargets) (\<lambda>u. ret l0)
          else (\<lambda>w. case like_all e uids l0 w of (l, w1) \<Rightarrow> (Inr l, w1)))
         (\<lambda>l. and_then (send_like_responses e (all_like_responses l)) (\<lambda>u. ret l))))"

section \<open>The task: \<^verbatim>\<open>_run_task_logic\<close>\<close>

text \<open>
  The end of the task, reached once GitHub has been updated: the wait, the likes and the
  final summary.
\<close>

definition likes_and_summary :: "env \<Rightarrow> config \<Rightarrow> nat \<Rightarrow> nat \<Rightarrow> string \<Rightarrow> unit io" where
  "likes_and_summary e config jwt_success jwt_total github_status_message =
     and_then (send_message e MsgWaiting60) (\<lambda>u.
     and_then (\<lambda>w. (Inr (), sleep 60 w)) (\<lambda>u.
     and_then (like_stage e config) (\<lambda>l.
       send_message e (MsgTaskComplete jwt_success jwt_total github_status_message
                         (like_success l) (like_fail l)))))"

text \<open>The body of the outer \<^verbatim>\<open>try\<close>, after the configuration has been read.\<close>

definition task_steps :: "env \<Rightarrow> config \<Rightarrow> unit io" where
  "task_steps e config =
     and_then (send_message e MsgStep1) (\<lambda>u.
       let accounts = (case guest_accounts config of None \<Rightarrow> [] | Some l \<Rightarrow> l) in
       if accounts = [] then send_message e MsgGuestAccountsNotSet
       else
         and_then (of_result (subscript ''jwt_api'' (jwt_api config))) (\<lambda>api_url.
         and_then (fetch_jwt_concurrently_superbot_style e accounts)
           (\<lambda>(token_dicts, jwt_success, jwt_fail, jwt_total).
         and_then (send_message e (MsgStep1Result jwt_total jwt_success jwt_fail)) (\<lambda>u.
           if token_dicts = [] then send_message e MsgNoTokens
           else
             and_then (send_message e MsgStep2) (\<lambda>u.
             and_then (github_stage e config token_dicts) (\<lambda>published.
               case published of
                 None \<Rightarrow> ret ()
               | Some github_status_message \<Rightarrow>
                   likes_and_summary e config jwt_success jwt_total github_status_message))))))"

section \<open>The manager and its background executions\<close>

text \<open>
  The fields of \<^verbatim>\<open>LikerManager\<close> that the task and its controls use: \<^verbatim>\<open>settings\<close>
  and \<^verbatim>\<open>threads\<close>, both keyed by chat id. An entry of \<^verbatim>\<open>threads\<close> holds a thread and
  the stop event created with it, so the event identifies the execution. \<open>stop_events\<close>
  are the events that are set. \<open>running\<close> lists the executions of \<^verbatim>\<open>_task_loop\<close> that
  were started and have not ended, each with its chat id and its stop event. \<open>wait_left\<close>
  is where each execution stands in \<^verbatim>\<open>_task_loop\<close>: \<open>0\<close> at the test of the
  \<^verbatim>\<open>while\<close> loop, and otherwise the number of iterations that remain of the \<^verbatim>\<open>for\<close>
  loop of the 24-hour wait.
\<close>

record manager =
  settings :: "int \<Rightarrow> config option"
  threads :: "int \<Rightarrow> nat option"
  stop_events :: "nat set"
  running :: "(int \<times> nat) list"
  next_event :: nat
  wait_left :: "nat \<Rightarrow> nat"

definition init_manager :: "(int \<Rightarrow> config option) \<Rightarrow> manager" where
  "init_manager loaded =
     \<lparr>settings = loaded, threads = (\<lambda>c. None), stop_events = {}, running = [], next_event = 0,
      wait_left = (\<lambda>ev. 0)\<rparr>"

text \<open>\<^verbatim>\<open>_get_config\<close> is \<^verbatim>\<open>self.settings.setdefault(chat_id, {})\<close>.\<close>

definition get_config :: "int \<Rightarrow> manager \<Rightarrow> config \<times> manager" where
  "get_config chat_id m =
     (case settings m chat_id of
        None \<Rightarrow> (empty_config, m\<lparr>settings := (settings m)(chat_id \<mapsto> empty_config)\<rparr>)
      | Some c \<Rightarrow> (c, m))"

text \<open>
  \<^verbatim>\<open>self.threads[chat_id]['stop_event'].set(); self.threads.pop(chat_id, None)\<close>
\<close>

definition set_and_pop :: "int \<Rightarrow> manager \<Rightarrow> manager" where
  "set_and_pop chat_id m =
     (case threads m chat_id of
        None \<Rightarrow> m
      | Some ev \<Rightarrow> m\<lparr>stop_events := insert ev (stop_events m),
                       threads := (threads m)(chat_id := None)\<rparr>)"

datatype exit = Returned | Raised exn

definition exit_of :: "exn + 'a \<Rightarrow> exit" where
  "exit_of r = (case r of Inl ex \<Rightarrow> Raised ex | Inr x \<Rightarrow> Returned)"

text \<open>
  \<^verbatim>\<open>_run_task_logic\<close>: an empty configuration returns at once; an exception of the
  steps is reported by the handler, which in a periodic run also ends the session's
  registered execution. An exception raised by the handler itself leaves the function.
\<close>

definition run_task_logic :: "env \<Rightarrow> int \<Rightarrow> bool \<Rightarrow> manager \<times> world \<Rightarrow> exit \<times> manager \<times> world" where
  "run_task_logic e chat_id is_manual_run s =
     (case s of (m, w) \<Rightarrow>
      case get_config chat_id m of (config, m1) \<Rightarrow>
        if config = empty_config then (Returned, m1, w)
        else
          (case task_steps e config w of
             (Inr u, w1) \<Rightarrow> (Returned, m1, w1)
           | (Inl ex, w1) \<Rightarrow>
               (case send_message e (MsgTaskFailed ex) w1 of
                  (Inl ex2, w2) \<Rightarrow> (Raised ex2, m1, w2)
                | (Inr u, w2) \<Rightarrow>
                    (Returned,
                     if \<not> is_manual_run \<and> threads m1 chat_id \<noteq> None then set_and_pop chat_id m1 else m1,
                     w2))))"

definition start_liker_task :: "env \<Rightarrow> int \<Rightarrow> manager \<times> world \<Rightarrow> exit \<times> manager \<times> world" where
  "start_liker_task e chat_id s =
     (case s of (m, w) \<Rightarrow>
      case get_config chat_id m of (config, m1) \<Rightarrow>
        if \<not> check_config_complete config then
          (case send_message e MsgSettingsIncomplete w of (r, w1) \<Rightarrow> (exit_of r, m1, w1))
        else if threads m1 chat_id \<noteq> None then
          (case send_message e MsgAlreadyRunning w of (r, w1) \<Rightarrow> (exit_of r, m1, w1))
        else
          (let stop_event = next_event m1;
               m2 = m1\<lparr>next_event := stop_event + 1,
                        threads := (threads m1)(chat_id \<mapsto> stop_event),
                        running := running m1 @ [(chat_id, stop_event)],
                        wait_left := (wait_left m1)(stop_event := 0)\<rparr> in
           case send_message e MsgStarted w of (r, w1) \<Rightarrow> (exit_of r, m2, w1)))"

definition stop_liker_task :: "env \<Rightarrow> int \<Rightarrow> manager \<times> world \<Rightarrow> exit \<times> manager \<times> world" where
  "stop_liker_task e chat_id s =
     (case s of (m, w) \<Rightarrow>
        if threads m chat_id = None then
          (case send_message e MsgNotRunning w of (r, w1) \<Rightarrow> (exit_of r, m, w1))
        else
          (case send_message e MsgStopping w of
             (Inl ex, w1) \<Rightarrow> (Raised ex, m, w1)
           | (Inr u, w1) \<Rightarrow> (Returned, set_and_pop chat_id m, w1)))"

text \<open>
  \<^verbatim>\<open>_task_loop\<close>, seen from outside, one step at a time. A step runs from one test of
  the stop event to the next.

  At the test of the \<^verbatim>\<open>while\<close> loop: when the event is set the execution leaves the
  loop, sends its last notice and ends; otherwise it runs a cycle (two notices around one
  periodic run of the task) and enters the wait of \<^verbatim>\<open>24 * 60 * 60 // 60\<close> iterations.
  An exception that escapes ends the execution.

  At an iteration of the wait: when the event is set, \<^verbatim>\<open>break\<close> leads back to the test
  of the \<^verbatim>\<open>while\<close> loop; otherwise the execution sleeps 60 seconds, and after the last
  iteration it is back at that test. So an execution that was told to stop stays alive
  until its loop next tests the event.
\<close>

definition ended :: "nat \<Rightarrow> manager \<Rightarrow> manager" where
  "ended ev m = m\<lparr>running := filter (\<lambda>(c, v). v \<noteq> ev) (running m)\<rparr>"

definition task_cycle :: "env \<Rightarrow> int \<Rightarrow> nat \<Rightarrow> manager \<times> world \<Rightarrow> manager \<times> world" where
  "task_cycle e chat_id ev s =
     (case s of (m, w) \<Rightarrow>
      case send_message e MsgCycleStarting w of
        (Inl ex, w1) \<Rightarrow> (ended ev m, w1)
      | (Inr u, w1) \<Rightarrow>
          (case run_task_logic e chat_id False (m, w1) of
             (Raised ex, m2, w2) \<Rightarrow> (ended ev m2, w2)
           | (Returned, m2, w2) \<Rightarrow>
               (case send_message e MsgCycleComplete w2 of
                  (Inl ex, w3) \<Rightarrow> (ended ev m2, w3)
                | (Inr u, w3) \<Rightarrow>
                    (m2\<lparr>wait_left := (wait_left m2)(ev := 24 * 60 * 60 div 60)\<rparr>, w3))))"

definition wait_iteration :: "nat \<Rightarrow> nat \<Rightarrow> manager \<times> world \<Rightarrow> manager \<times> world" where
  "wait_iteration ev remaining s =
     (case s of (m, w) \<Rightarrow>
        if ev \<in> stop_events m
        then (m\<lparr>wait_left := (wait_left m)(ev := 0)\<rparr>, w)
        else (m\<lparr>wait_left := (wait_left m)(ev := remaining)\<rparr>, sleep 60 w))"

definition task_loop_step :: "env \<Rightarrow> nat \<Rightarrow> manager \<times> world \<Rightarrow> manager \<times> world" where
  "task_loop_step e ev s =
     (case s of (m, w) \<Rightarrow>
      case find (\<lambda>(c, v). v = ev) (running m) of
        None \<Rightarrow> (m, w)
      | Some (chat_id, v) \<Rightarrow>
          (case wait_left m ev of
             0 \<Rightarrow>
               (if ev \<in> stop_events m
                then (ended ev m, snd (send_message e MsgThreadStopped w))
                else task_cycle e chat_id ev (m, w))
           | Suc remaining \<Rightarrow> wait_iteration ev remaining (m, w)))"

text \<open>What can happen to a manager: the two commands, and a step of an execution.\<close>

datatype action = Start int | Stop int | LoopStep nat

fun perform :: "env \<Rightarrow> action \<Rightarrow> manager \<times> world \<Rightarrow> manager \<times> world" where
  "perform e (Start chat_id) s = snd (start_liker_task e chat_id s)"
| "perform e (Stop chat_id) s = snd (stop_liker_task e chat_id s)"
| "perform e (LoopStep ev) s = task_loop_step e ev s"

fun perform_all :: "env \<Rightarrow> action list \<Rightarrow> manager \<times> world \<Rightarrow> manager \<times> world" where
  "perform_all e [] s = s"
| "perform_all e (a # as) s = perform_all e as (perform e a s)"

text \<open>
  The executions of a session that are alive, and those among them that have not been
  told to stop.
\<close>

definition alive :: "int \<Rightarrow> manager \<Rightarrow> (int \<times> nat) list" where
  "alive chat_id m = filter (\<lambda>(c, v). c = chat_id) (running m)"

definition uncancelled :: "int \<Rightarrow> manager \<Rightarrow> (int \<times> nat) list" where
  "uncancelled chat_id m = filter (\<lambda>(c, v). c = chat_id \<and> v \<notin> stop_events m) (running m)"

section \<open>Notions of the specification\<close>

text \<open>
  The body shapes the specification accepts for a token: an object with a \<^verbatim>\<open>token\<close>
  field, or a non-empty array whose first element is such an object.
\<close>

fun token_shape :: "json \<Rightarrow> bool" where
  "token_shape (JObj kvs) = (''token'' \<in> fst ` set kvs)"
| "token_shape (JArr (JObj kvs # rest)) = (''token'' \<in> fst ` set kvs)"
| "token_shape other = False"

text \<open>
  The failure shape that triggers the retry, for a given sentinel text: a response whose
  status is not 200 and whose body parses as a JSON object with that text under
  \<^verbatim>\<open>error\<close>.
\<close>

definition retry_trigger :: "string \<Rightarrow> http_outcome \<Rightarrow> bool" where
  "retry_trigger sentinel first =
     (case first of
        Response r \<Rightarrow>
          status_code r \<noteq> 200 \<and>
          (case body_json r of
             Inr (JObj kvs) \<Rightarrow> dict_get kvs ''error'' = Some (JStr sentinel)
           | _ \<Rightarrow> False)
      | _ \<Rightarrow> False)"



text \<open>The notices that close a run: the final summary, or why the run stopped early.\<close>

definition is_report :: "msg \<Rightarrow> bool" where
  "is_report m =
     (case m of
        MsgGuestAccountsNotSet \<Rightarrow> True
      | MsgNoTokens \<Rightarrow> True
      | MsgStep2Error ex \<Rightarrow> True
      | MsgTaskComplete jwt_ok jwt_total github_status likes_ok likes_failed \<Rightarrow> True
      | MsgTaskFailed ex \<Rightarrow> True
      | _ \<Rightarrow> False)"

text \<open>A trace ends with a report when its last event is the sending of such a notice.\<close>

definition ends_with_report :: "event list \<Rightarrow> bool" where
  "ends_with_report tr = (case rev tr of Sent m # earlier \<Rightarrow> is_report m | _ \<Rightarrow> False)"

text \<open>A trace closes with a notice when its last event is the sending of that notice.\<close>

definition closes_with :: "msg \<Rightarrow> event list \<Rightarrow> bool" where
  "closes_with m tr = (tr \<noteq> [] \<and> last tr = Sent m)"

section \<open>Example inputs\<close>

definition sample_str :: "json \<Rightarrow> string" where
  "sample_str j = ''<data>''"

definition sample_account :: json where
  "sample_account = JObj [(''uid'', JStr ''4001''), (''password'', JStr ''pw'')]"

definition empty_token_response :: response where
  \<open>empty_token_response =
     \<lparr>status_code = 200, body_text = ''{"token": ""}'',
      body_json = Inr (JObj [(''token'', JStr [])])\<rparr>\<close>

definition not_found_response :: response where
  "not_found_response = \<lparr>status_code = 404, body_text = ''Not Found'', body_json = Inl ''Expecting value''\<rparr>"

definition token_response :: response where
  \<open>token_response =
     \<lparr>status_code = 200, body_text = ''[{"token": "eyJh"}]'',
      body_json = Inr (JArr [JObj [(''token'', JStr ''eyJh'')]])\<rparr>\<close>

definition wrong_shape_response :: response where
  \<open>wrong_shape_response =
     \<lparr>status_code = 200, body_text = ''{"jwt": "eyJh"}'',
      body_json = Inr (JObj [(''jwt'', JStr ''eyJh'')])\<rparr>\<close>

definition html_response :: response where
  "html_response = \<lparr>status_code = 200, body_text = ''<html>'', body_json = Inl ''Expecting value''\<rparr>"

definition claimed_sentinel :: string where
  "claimed_sentinel = ''could not retrieve required upstream state''"

definition upstream_response :: response where
  \<open>upstream_response =
     \<lparr>status_code = 500, body_text = ''{"error": "could not retrieve required upstream state"}'',
      body_json = Inr (JObj [(''error'', JStr ''could not retrieve required upstream state'')])\<rparr>\<close>

definition player_info_response :: response where
  \<open>player_info_response =
     \<lparr>status_code = 500, body_text = ''{"error": "Failed to retrieve initial player info."}'',
      body_json = Inr (JObj [(''error'', JStr ''Failed to retrieve initial player info.'')])\<rparr>\<close>

definition ok_response :: response where
  \<open>ok_response = \<lparr>status_code = 200, body_text = ''{"status": 1}'',
      body_json = Inr (JObj [(''status'', JInt 1)])\<rparr>\<close>

text \<open>A stand-in for the serializer, used in examples only.\<close>

definition sample_dumps :: "json list \<Rightarrow> string" where
  "sample_dumps tokens = concat (map (\<lambda>t. case t of JObj [(k, JStr v)] \<Rightarrow> k @ ''='' @ v @ '';'' | _ \<Rightarrow> ''?;'') tokens)"

text \<open>An environment in which every service answers and nothing raises.\<close>

definition calm_env :: env where
  "calm_env = \<lparr>notifier = (\<lambda>k. Delivered), token_api = (\<lambda>i. Response token_response),
     completion = [], like_server = (\<lambda>k. Response ok_response), store_fault = (\<lambda>k. None),
     py_str = sample_str, dumps = sample_dumps\<rparr>"

definition upstream_env :: env where
  "upstream_env = calm_env\<lparr>like_server := (\<lambda>k. Response upstream_response)\<rparr>"

definition retry_then_ok_env :: env where
  "retry_then_ok_env =
     calm_env\<lparr>like_server := (\<lambda>k. if k = 0 then Response player_info_response else Response ok_response)\<rparr>"

definition retry_then_timeout_env :: env where
  "retry_then_timeout_env =
     calm_env\<lparr>like_server := (\<lambda>k. if k = 0 then Response player_info_response else Timeout ''timed out'')\<rparr>"

definition fresh_world :: world where
  "fresh_world = \<lparr>trace = [], notifier_calls = 0, like_calls = 0, store_calls = 0,
                    files = (\<lambda>p. None), next_sha = 0\<rparr>"

definition no_likes :: likes where
  "no_likes = \<lparr>like_success = 0, like_fail = 0, all_like_responses = []\<rparr>"

definition three_accounts :: "json list" where
  "three_accounts =
     [JObj [(''uid'', JStr ''4001''), (''password'', JStr ''pw1'')],
      JObj [(''uid'', JStr ''4002'')],
      JObj [(''uid'', JStr ''4003''), (''password'', JStr ''pw3'')]]"

definition second_times_out_env :: env where
  "second_times_out_env =
     calm_env\<lparr>token_api := (\<lambda>i. if i = 1 then Timeout ''timed out'' else Response token_response),
              completion := [1]\<rparr>"

definition sample_config :: config where
  "sample_config =
     \<lparr>jwt_api = Some ''https://jwt.example/token'', like_api = Some ''https://like.example/like'',
      guest_accounts = Some three_accounts, github_token = Some ''ghp_x'',
      github_repo = Some ''owner/repo'', github_file_path = Some ''tokens.json'',
      target_uids = Some [''1001'', ''1002'']\<rparr>"

definition tokens_a :: "json list" where
  "tokens_a = [JObj [(''token'', JStr ''eyJh'')]]"

definition tokens_b :: "json list" where
  "tokens_b = [JObj [(''token'', JStr ''eyJh'')], JObj [(''token'', JStr ''eyJi'')]]"

definition published_world :: world where
  "published_world = snd (github_update calm_env sample_config tokens_a fresh_world)"

definition sample_settings :: "int \<Rightarrow> config option" where
  "sample_settings chat_id = (if chat_id = 7 then Some sample_config else None)"

definition no_accounts_settings :: "int \<Rightarrow> config option" where
  "no_accounts_settings chat_id =
     (if chat_id = 7 then Some (sample_config\<lparr>guest_accounts := None\<rparr>) else None)"

definition all_timeout_env :: env where
  "all_timeout_env = calm_env\<lparr>token_api := (\<lambda>i. Timeout ''timed out'')\<rparr>"

definition store_down_env :: env where
  "store_down_env = calm_env\<lparr>store_fault := (\<lambda>k. Some (OtherException ''401 Bad credentials''))\<rparr>"

text \<open>
  What holds of every manager that the commands and the executions can produce: an
  execution that is running and has not been told to stop is the one registered for its
  chat; stop events are not shared; every event in use was created before.
\<close>

definition registry_ok :: "manager \<Rightarrow> bool" where
  "registry_ok m =
     ((\<forall>c ev. (c, ev) \<in> set (running m) \<longrightarrow> ev \<notin> stop_events m \<longrightarrow> threads m c = Some ev) \<and>
      distinct (map snd (running m)) \<and>
      (\<forall>c ev. (c, ev) \<in> set (running m) \<longrightarrow> ev < next_event m) \<and>
      (\<forall>ev \<in> stop_events m. ev < next_event m) \<and>
      (\<forall>c ev. threads m c = Some ev \<longrightarrow> ev < next_event m))"

definition started_once :: "manager \<times> world" where
  "started_once = perform_all calm_env [Start 7] (init_manager sample_settings, fresh_world)"

definition no_jwt_settings :: "int \<Rightarrow> config option" where
  "no_jwt_settings chat_id =
     (if chat_id = 7 then Some (sample_config\<lparr>jwt_api := None\<rparr>) else None)"

definition two_tokens :: "json list" where
  "two_tokens = [JObj [(''token'', JStr ''eyJh'')], JObj [(''token'', JStr ''eyJh'')]]"

definition two_likes :: likes where
  "two_likes = \<lparr>like_success = 2, like_fail = 0,
     all_like_responses = [response_line ''1001'' (body_text ok_response),
                           response_line ''1002'' (body_text ok_response)]\<rparr>"

text \<open>The worlds of a run from \<open>fresh_world\<close> at which the stages are entered.\<close>

definition after_tokens :: "env \<Rightarrow> world" where
  "after_tokens e =
     snd (fetch_jwt_concurrently_superbot_style e three_accounts (snd (send_message e MsgStep1 fresh_world)))"

definition before_publish :: "env \<Rightarrow> world" where
  "before_publish e =
     snd (send_message e MsgStep2 (snd (send_message e (MsgStep1Result 2 2 0) (after_tokens e))))"

definition after_publish :: "env \<Rightarrow> world" where
  "after_publish e = snd (github_try e sample_config two_tokens (before_publish e))"

section \<open>Facts about a single fetch\<close>

lemma dict_get_None: "dict_get kvs k = None \<longleftrightarrow> k \<notin> fst ` set kvs"
  by (simp add: dict_get_def map_of_eq_None_iff)

lemma token_str_of_shape: "token_str_of data \<noteq> None \<longleftrightarrow> token_shape data"
  by (induction data rule: token_shape.induct) (simp_all add: token_str_of_def dict_get_None)

lemma both_present_sample: "both_present sample_account"
  by (simp add: both_present_def sample_account_def dict_get_def truthy_opt_def)

text \<open>What the function does once both fields are present, that is, once a request is made.\<close>

lemma fetch_made:
  "both_present account \<Longrightarrow>
   fetch_single_jwt_token ps account outcome =
     (case outcome of
        Response r \<Rightarrow>
          (if status_code r = 200 then
             (case body_json r of
                Inl decode_err \<Rightarrow> Inr (None, Some (''General Error: '' @ decode_err))
              | Inr token_data \<Rightarrow>
                  (if truthy_opt (token_str_of token_data)
                   then Inr (Some (JObj [(''token'', the (token_str_of token_data))]), None)
                   else Inr (None, Some (''Token key/format invalid: '' @ take 100 (ps token_data)))))
           else Inr (None, Some (''API failed (Status: '' @ str_int (status_code r) @ '')'')))
      | Timeout e_str \<Rightarrow> Inr (None, Some ''Timeout (60s)'')
      | ConnectionError args e_str \<Rightarrow>
          (case connection_error_reason args e_str of
             Inl ex \<Rightarrow> Inl ex
           | Inr reason \<Rightarrow> Inr (None, Some reason))
      | RequestFailed e_str \<Rightarrow> Inr (None, Some (''General Error: '' @ e_str)))"
  by (cases account)
     (auto simp: both_present_def fetch_single_jwt_token_def truthy_opt_def
           split: http_outcome.splits sum.splits option.splits)

text \<open>
  Claim C6, as the code has it. When the request of a fetch times out, the recorded reason
  is the string "Timeout (60s)". When it fails with a connection error whose first
  argument is a protocol error whose second argument is a connection reset, the reason is
  exactly "Connection Reset by Server". Every other connection error whose arguments the
  handler can index (a first argument that is not a protocol error, or a protocol error
  whose second argument is not a connection reset) records "Connection Error: " followed
  by the error text, and that is never the string recorded for a reset. When the
  arguments are too short to index, the handler raises and no reason is recorded.
\<close>

theorem timeout_and_reset_reasons:
  "both_present account \<Longrightarrow>
     fetch_single_jwt_token ps account (Timeout s) = Inr (None, Some ''Timeout (60s)'') \<and>
     fetch_single_jwt_token ps account
         (ConnectionError (ArgProtocolError (a0 # ArgConnectionResetError # others) # rest) s)
       = Inr (None, Some ''Connection Reset by Server'') \<and>
     (a1 \<noteq> ArgConnectionResetError \<longrightarrow>
        fetch_single_jwt_token ps account
            (ConnectionError (ArgProtocolError (a0 # a1 # others) # rest) s)
          = Inr (None, Some (''Connection Error: '' @ s))) \<and>
     fetch_single_jwt_token ps account (ConnectionError (ArgConnectionResetError # rest) s)
       = Inr (None, Some (''Connection Error: '' @ s)) \<and>
     fetch_single_jwt_token ps account (ConnectionError (ArgOther # rest) s)
       = Inr (None, Some (''Connection Error: '' @ s)) \<and>
     ''Connection Error: '' @ s \<noteq> ''Connection Reset by Server'' \<and>
     fetch_single_jwt_token ps account (ConnectionError [] s) = Inl IndexError \<and>
     fetch_single_jwt_token ps account (ConnectionError (ArgProtocolError [] # rest) s)
       = Inl IndexError \<and>
     fetch_single_jwt_token ps account (ConnectionError (ArgProtocolError [a0] # rest) s)
       = Inl IndexError"
  by (simp add: fetch_made connection_error_reason_def)

theorem timeout_and_reset_reasons_witness:
  "both_present sample_account \<and>
   fetch_single_jwt_token sample_str sample_account (Timeout ''read timed out'')
     = Inr (None, Some ''Timeout (60s)'') \<and>
   fetch_single_jwt_token sample_str sample_account
       (ConnectionError [ArgProtocolError [ArgOther, ArgConnectionResetError]] ''read timed out'')
     = Inr (None, Some ''Connection Reset by Server'') \<and>
   ArgOther \<noteq> ArgConnectionResetError \<and>
   fetch_single_jwt_token sample_str sample_account
       (ConnectionError [ArgProtocolError [ArgOther, ArgOther]] ''read timed out'')
     = Inr (None, Some ''Connection Error: read timed out'') \<and>
   fetch_single_jwt_token sample_str sample_account (ConnectionError [ArgOther] ''read timed out'')
     = Inr (None, Some ''Connection Error: read timed out'')"
  using timeout_and_reset_reasons [OF both_present_sample, of sample_str "''read timed out''"
          ArgOther "[]" "[]" ArgOther]
        both_present_sample
  by simp

text \<open>
  Claim C6, as stated, at a concrete input: a fetch whose request times out does not
  record the reason "Timeout".
\<close>

theorem timeout_reason_counterexample:
  "fetch_single_jwt_token sample_str sample_account (Timeout ''read timed out'')
     \<noteq> Inr (None, Some ''Timeout'')"
  by (simp add: fetch_made both_present_sample)

text \<open>
  Claim C8, as the code has it. For a fetch that gets a response: with status 200 and a
  body that parses as JSON, the result is a success with one token exactly when the body
  has one of the two token shapes and the value under \<^verbatim>\<open>token\<close> is true in Python's
  sense; every other parsed body gives the reason "Token key/format invalid: " followed by
  the first 100 characters of the parsed data; a body that does not parse gives
  "General Error: " and the decoding error; every other status gives
  "API failed (Status: <code>)" with the status code in decimal.
\<close>

theorem token_response_outcomes:
  "both_present account \<Longrightarrow>
     (status_code r = 200 \<longrightarrow> body_json r = Inr data \<longrightarrow>
        ((\<exists>d. fetch_single_jwt_token ps account (Response r) = Inr (Some d, None))
           \<longleftrightarrow> token_shape data \<and> truthy_opt (token_str_of data)) \<and>
        (token_shape data \<and> truthy_opt (token_str_of data) \<longrightarrow>
           fetch_single_jwt_token ps account (Response r)
             = Inr (Some (JObj [(''token'', the (token_str_of data))]), None)) \<and>
        (\<not> (token_shape data \<and> truthy_opt (token_str_of data)) \<longrightarrow>
           fetch_single_jwt_token ps account (Response r)
             = Inr (None, Some (''Token key/format invalid: '' @ take 100 (ps data))))) \<and>
     (status_code r = 200 \<longrightarrow> body_json r = Inl err \<longrightarrow>
        fetch_single_jwt_token ps account (Response r) = Inr (None, Some (''General Error: '' @ err))) \<and>
     (status_code r \<noteq> 200 \<longrightarrow>
        fetch_single_jwt_token ps account (Response r)
          = Inr (None, Some (''API failed (Status: '' @ str_int (status_code r) @ '')'')))"
  using token_str_of_shape [of data]
  by (auto simp: fetch_made truthy_opt_def split: option.splits)

theorem token_response_outcomes_witness:
  "both_present sample_account \<and>
   fetch_single_jwt_token sample_str sample_account (Response token_response)
     = Inr (Some (JObj [(''token'', JStr ''eyJh'')]), None) \<and>
   fetch_single_jwt_token sample_str sample_account (Response wrong_shape_response)
     = Inr (None, Some ''Token key/format invalid: <data>'') \<and>
   fetch_single_jwt_token sample_str sample_account (Response html_response)
     = Inr (None, Some ''General Error: Expecting value'') \<and>
   fetch_single_jwt_token sample_str sample_account (Response not_found_response)
     = Inr (None, Some ''API failed (Status: 404)'')"
proof -
  have code: "str_int 404 = ''404''"
    by code_simp
  show ?thesis
    using token_response_outcomes [OF both_present_sample, of token_response
            "JArr [JObj [(''token'', JStr ''eyJh'')]]" sample_str "[]"]
          token_response_outcomes [OF both_present_sample, of wrong_shape_response
            "JObj [(''jwt'', JStr ''eyJh'')]" sample_str "[]"]
          token_response_outcomes [OF both_present_sample, of html_response
            JNull sample_str "''Expecting value''"]
          token_response_outcomes [OF both_present_sample, of not_found_response
            JNull sample_str "[]"]
    by (simp add: token_response_def wrong_shape_response_def html_response_def
          not_found_response_def token_str_of_def dict_get_def truthy_opt_def sample_str_def code
          both_present_sample)
qed

text \<open>
  Claim C8, as stated, at a concrete input: the body \<^verbatim>\<open>{"token": ""}\<close> with status 200 is a
  JSON object with a \<^verbatim>\<open>token\<close> field, and the fetch is a failure.
\<close>

theorem token_response_counterexample:
  "status_code empty_token_response = 200 \<and>
   body_json empty_token_response = Inr (JObj [(''token'', JStr [])]) \<and>
   token_shape (JObj [(''token'', JStr [])]) \<and>
   fetch_single_jwt_token sample_str sample_account (Response empty_token_response)
     = Inr (None, Some ''Token key/format invalid: <data>'')"
  by (simp add: fetch_made both_present_sample empty_token_response_def token_str_of_def
        dict_get_def truthy_opt_def sample_str_def)

text \<open>
  Claim C9. A response with status 200 whose body has the \<^verbatim>\<open>token\<close> key in one of the two
  shapes, with a value that is false in Python's sense (the empty string, for one), is
  counted as a failure with the reason "Token key/format invalid: ..."; no token is
  produced.
\<close>

theorem falsy_token_is_failure:
  "both_present account \<Longrightarrow> status_code r = 200 \<Longrightarrow> body_json r = Inr data \<Longrightarrow>
   token_shape data \<Longrightarrow> token_str_of data = Some token \<Longrightarrow> \<not> truthy token \<Longrightarrow>
     fetch_single_jwt_token ps account (Response r)
       = Inr (None, Some (''Token key/format invalid: '' @ take 100 (ps data)))"
  by (simp add: fetch_made truthy_opt_def)

theorem falsy_token_is_failure_witness:
  "both_present sample_account \<and> status_code empty_token_response = 200 \<and>
   body_json empty_token_response = Inr (JObj [(''token'', JStr [])]) \<and>
   token_shape (JObj [(''token'', JStr [])]) \<and>
   token_str_of (JObj [(''token'', JStr [])]) = Some (JStr []) \<and> \<not> truthy (JStr []) \<and>
   fetch_single_jwt_token sample_str sample_account (Response empty_token_response)
     = Inr (None, Some (''Token key/format invalid: '' @ take 100 (sample_str (JObj [(''token'', JStr [])]))))"
proof -
  have shape: "token_shape (JObj [(''token'', JStr [])])"
    by simp
  have tok: "token_str_of (JObj [(''token'', JStr [])]) = Some (JStr [])"
    by (simp add: token_str_of_def dict_get_def)
  have st: "status_code empty_token_response = 200"
    and body: "body_json empty_token_response = Inr (JObj [(''token'', JStr [])])"
    by (simp_all add: empty_token_response_def)
  have falsy: "\<not> truthy (JStr [])"
    by simp
  show ?thesis
    using falsy_token_is_failure [OF both_present_sample st body shape tok falsy, of sample_str]
          both_present_sample st body shape tok
    by simp
qed

section \<open>Facts about one target of the dispatch\<close>

lemma send_message_Delivered:
  "notifier e (notifier_calls w) = Delivered \<Longrightarrow>
   send_message e m w = (Inr (), w\<lparr>notifier_calls := notifier_calls w + 1, trace := trace w @ [Sent m]\<rparr>)"
  by (simp add: send_message_def notify_def Let_def)

lemma retry_logic_no_trigger:
  "\<not> retry_trigger retry_error (Response r) \<Longrightarrow>
   retry_logic e uid r w = ((r, body_text r), w)"
  by (auto simp: retry_logic_def retry_trigger_def split: sum.splits json.splits)

lemma retry_logic_trigger:
  "retry_trigger retry_error (Response r) \<Longrightarrow> notifier e (notifier_calls w) = Delivered \<Longrightarrow>
   retry_logic e uid r w =
     (let w1 = w\<lparr>notifier_calls := notifier_calls w + 1, trace := trace w @ [Sent (MsgRetryNotice uid)]\<rparr>;
          w2 = (sleep 120 w1)\<lparr>like_calls := like_calls w + 1,
                   trace := trace w @ [Sent (MsgRetryNotice uid), Slept 120, LikeRequest uid]\<rparr> in
      case like_server e (like_calls w) of
        Response r2 \<Rightarrow> ((r2, body_text r2), w2)
      | _ \<Rightarrow> ((r, body_text r), w2))"
  by (auto simp: retry_logic_def retry_trigger_def send_message_Delivered like_request_def sleep_def Let_def
           split: sum.splits json.splits http_outcome.splits)

text \<open>
  Claim C1, as the code has it. For one target, the first request is followed by exactly
  one more request, after the retry notice and a sleep of 120 seconds, when the first
  response has a status other than 200 and a body that parses as a JSON object whose
  \<^verbatim>\<open>error\<close> field is the text "Failed to retrieve initial player info." (and the retry notice
  is delivered). For every other outcome of the first request (a timeout, a transport
  error, another error text, a body that is not such an object, status 200) no further
  request is made.
\<close>

theorem retry_exactly_on_player_info_error:
  "(retry_trigger retry_error (like_server e (like_calls w)) \<and> notifier e (notifier_calls w) = Delivered \<longrightarrow>
      trace (snd (like_one e uid l w))
        = trace w @ [LikeRequest uid, Sent (MsgRetryNotice uid), Slept 120, LikeRequest uid, Slept 1] \<and>
      like_calls (snd (like_one e uid l w)) = like_calls w + 2) \<and>
   (\<not> retry_trigger retry_error (like_server e (like_calls w)) \<longrightarrow>
      trace (snd (like_one e uid l w)) = trace w @ [LikeRequest uid, Slept 1] \<and>
      like_calls (snd (like_one e uid l w)) = like_calls w + 1)"
proof (cases "like_server e (like_calls w)")
  case (Response r)
  show ?thesis
  proof (cases "retry_trigger retry_error (Response r)")
    case True
    then show ?thesis
      using Response
      by (auto simp: like_one_def like_request_def retry_logic_trigger sleep_def Let_def
               split: http_outcome.splits)
  next
    case False
    then show ?thesis
      using Response
      by (simp add: like_one_def like_request_def retry_logic_no_trigger sleep_def)
  qed
qed (simp_all add: like_one_def like_request_def retry_trigger_def sleep_def)

theorem retry_exactly_on_player_info_error_witness:
  "retry_trigger retry_error (like_server retry_then_ok_env (like_calls fresh_world)) \<and>
   notifier retry_then_ok_env (notifier_calls fresh_world) = Delivered \<and>
   trace (snd (like_one retry_then_ok_env ''1001'' no_likes fresh_world))
     = [LikeRequest ''1001'', Sent (MsgRetryNotice ''1001''), Slept 120, LikeRequest ''1001'', Slept 1] \<and>
   \<not> retry_trigger retry_error (like_server calm_env (like_calls fresh_world)) \<and>
   trace (snd (like_one calm_env ''1001'' no_likes fresh_world)) = [LikeRequest ''1001'', Slept 1]"
  using retry_exactly_on_player_info_error [of retry_then_ok_env fresh_world "''1001''" no_likes]
        retry_exactly_on_player_info_error [of calm_env fresh_world "''1001''" no_likes]
  by (simp add: retry_trigger_def retry_then_ok_env_def calm_env_def fresh_world_def
        player_info_response_def ok_response_def retry_error_def dict_get_def)

text \<open>
  Claim C1, as stated, at a concrete input: a first response with status 500 and the body
  \<^verbatim>\<open>{"error": "could not retrieve required upstream state"}\<close> has the shape the claim names,
  and the target sees one request and no retry.
\<close>

theorem retry_sentinel_counterexample:
  "retry_trigger claimed_sentinel (like_server upstream_env (like_calls fresh_world)) \<and>
   status_code upstream_response \<noteq> 200 \<and>
   trace (snd (like_one upstream_env ''1001'' no_likes fresh_world)) = [LikeRequest ''1001'', Slept 1]"
  by (simp add: retry_trigger_def claimed_sentinel_def upstream_env_def calm_env_def fresh_world_def
        upstream_response_def dict_get_def like_one_def like_request_def retry_logic_def retry_error_def
        sleep_def)

text \<open>
  Claim C10. When the retry of a target is triggered and the second request raises, the
  exception is swallowed: the target's count is decided by the status of the first
  response (which is not 200, so it is one failure), and the text kept for the target is
  the body of the first response, not a request error.
\<close>

theorem failed_retry_keeps_first_response:
  "like_server e (like_calls w) = Response r1 \<Longrightarrow>
   retry_trigger retry_error (Response r1) \<Longrightarrow>
   notifier e (notifier_calls w) = Delivered \<Longrightarrow>
   (\<forall>r2. like_server e (like_calls w + 1) \<noteq> Response r2) \<Longrightarrow>
     fst (like_one e uid l w)
       = (if status_code r1 = 200 then l\<lparr>like_success := like_success l + 1\<rparr>
          else l\<lparr>like_fail := like_fail l + 1\<rparr>)
           \<lparr>all_like_responses := all_like_responses l @ [response_line uid (body_text r1)]\<rparr> \<and>
     like_success (fst (like_one e uid l w)) = like_success l \<and>
     like_fail (fst (like_one e uid l w)) = like_fail l + 1 \<and>
     trace (snd (like_one e uid l w))
       = trace w @ [LikeRequest uid, Sent (MsgRetryNotice uid), Slept 120, LikeRequest uid, Slept 1]"
proof -
  assume first: "like_server e (like_calls w) = Response r1"
    and trig: "retry_trigger retry_error (Response r1)"
    and sent: "notifier e (notifier_calls w) = Delivered"
    and second: "\<forall>r2. like_server e (like_calls w + 1) \<noteq> Response r2"
  from trig have st: "status_code r1 \<noteq> 200"
    by (simp add: retry_trigger_def)
  show ?thesis
    using first trig sent second st
    by (cases "like_server e (Suc (like_calls w))")
       (simp_all add: like_one_def like_request_def retry_logic_trigger sleep_def Let_def)
qed

theorem failed_retry_keeps_first_response_witness:
  "like_server retry_then_timeout_env (like_calls fresh_world) = Response player_info_response \<and>
   retry_trigger retry_error (Response player_info_response) \<and>
   notifier retry_then_timeout_env (notifier_calls fresh_world) = Delivered \<and>
   like_server retry_then_timeout_env (like_calls fresh_world + 1) = Timeout ''timed out'' \<and>
   like_success (fst (like_one retry_then_timeout_env ''1001'' no_likes fresh_world)) = 0 \<and>
   like_fail (fst (like_one retry_then_timeout_env ''1001'' no_likes fresh_world)) = 1 \<and>
   all_like_responses (fst (like_one retry_then_timeout_env ''1001'' no_likes fresh_world))
     = [response_line ''1001'' (body_text player_info_response)]"
proof -
  have first: "like_server retry_then_timeout_env (like_calls fresh_world) = Response player_info_response"
    by (simp add: retry_then_timeout_env_def calm_env_def fresh_world_def)
  have trig: "retry_trigger retry_error (Response player_info_response)"
    by (simp add: retry_trigger_def player_info_response_def retry_error_def dict_get_def)
  have sent: "notifier retry_then_timeout_env (notifier_calls fresh_world) = Delivered"
    by (simp add: retry_then_timeout_env_def calm_env_def)
  have second: "like_server retry_then_timeout_env (like_calls fresh_world + 1) = Timeout ''timed out''"
    by (simp add: retry_then_timeout_env_def calm_env_def fresh_world_def)
  then have none: "\<forall>r2. like_server retry_then_timeout_env (like_calls fresh_world + 1) \<noteq> Response r2"
    by simp
  show ?thesis
    using failed_retry_keeps_first_response [OF first trig sent none, of "''1001''" no_likes]
          first trig sent second
    by (simp add: no_likes_def player_info_response_def)
qed

section \<open>Facts about the token stage\<close>

lemma submit_loop_counts:
  "submit_loop accounts (n, futs) = Inr (n', futs') \<Longrightarrow>
   n' = n + length (filter both_present accounts) \<and> futs' = futs @ filter both_present accounts"
proof (induction accounts arbitrary: n futs)
  case Nil
  then show ?case by simp
next
  case (Cons acc accs)
  show ?case
  proof (cases "both_present acc")
    case True
    then obtain kvs where "acc = JObj kvs"
      by (cases acc) (simp_all add: both_present_def)
    with True Cons.prems have "submit_loop accs (n + 1, futs @ [acc]) = Inr (n', futs')"
      by (simp add: both_present_def)
    from Cons.IH [OF this] True show ?thesis by simp
  next
    case False
    with Cons.prems have "submit_loop accs (n, futs) = Inr (n', futs')"
      by (cases acc) (simp_all add: both_present_def split: if_splits)
    from Cons.IH [OF this] False show ?thesis by simp
  qed
qed

lemma submit_loop_dicts:
  "\<forall>acc \<in> set accounts. \<exists>kvs. acc = JObj kvs \<Longrightarrow> \<exists>r. submit_loop accounts st = Inr r"
proof (induction accounts arbitrary: st)
  case Nil
  then show ?case by simp
next
  case (Cons acc accs)
  then show ?case
    by (cases st) auto
qed

lemma length_as_completed: "length (as_completed picks fs) = length fs"
proof (induction picks fs rule: as_completed.induct)
  case (1 picks)
  then show ?case by simp
next
  case (2 picks f fs)
  have "pick_index picks (length (f # fs)) < length (f # fs)"
    by (simp add: pick_index_def split: list.splits)
  with 2 show ?case
    by (simp add: Let_def min_def)
qed

lemma set_as_completed: "set (as_completed picks fs) = set fs"
proof (induction picks fs rule: as_completed.induct)
  case (1 picks)
  then show ?case by simp
next
  case (2 picks f fs)
  let ?i = "pick_index picks (length (f # fs))"
  let ?rest = "take ?i (f # fs) @ drop (Suc ?i) (f # fs)"
  have i: "?i < length (f # fs)"
    by (simp add: pick_index_def split: list.splits)
  have "f # fs = take ?i (f # fs) @ (f # fs) ! ?i # drop (Suc ?i) (f # fs)"
    using i by (rule id_take_nth_drop)
  then have "set (f # fs) = set (take ?i (f # fs) @ (f # fs) ! ?i # drop (Suc ?i) (f # fs))"
    by simp
  also have "\<dots> = insert ((f # fs) ! ?i) (set ?rest)"
    by (simp only: set_append list.set) blast
  finally have split: "set (f # fs) = insert ((f # fs) ! ?i) (set ?rest)" .
  have ih: "set (as_completed (tl picks) ?rest) = set ?rest"
    by (rule "2.IH") simp
  have "as_completed picks (f # fs) = (f # fs) ! ?i # as_completed (tl picks) ?rest"
    by (simp only: as_completed.simps Let_def)
  then have "set (as_completed picks (f # fs)) = insert ((f # fs) ! ?i) (set ?rest)"
    using ih by (simp only: list.set)
  with split show ?case by simp
qed

lemma record_result_counts:
  "success_count (record_result res t) + fail_count (record_result res t)
     = Suc (success_count t + fail_count t) \<and>
   length (tokens_list (record_result res t)) + success_count t
     = length (tokens_list t) + success_count (record_result res t) \<and>
   processed_count (record_result res t) = processed_count t"
  by (auto simp: record_result_def split: prod.splits option.splits)

lemma collect_counts:
  "collect e pm n futs t w = (Inr t', w') \<Longrightarrow>
   success_count t' + fail_count t' = success_count t + fail_count t + length futs \<and>
   length (tokens_list t') + success_count t = length (tokens_list t) + success_count t'"
proof (induction futs arbitrary: t w)
  case Nil
  then show ?case by simp
next
  case (Cons fut futs)
  show ?case
  proof (cases fut)
    case (Inl ex)
    with Cons.prems show ?thesis by (simp add: Let_def)
  next
    case (Inr res)
    let ?t2 = "record_result res (t\<lparr>processed_count := processed_count t + 1\<rparr>)"
    from Cons.prems Inr obtain w1 where "collect e pm n futs ?t2 w1 = (Inr t', w')"
      by (auto simp: Let_def split: if_splits prod.splits sum.splits)
    from Cons.IH [OF this] record_result_counts [of res "t\<lparr>processed_count := processed_count t + 1\<rparr>"]
    show ?thesis by simp
  qed
qed

lemma progress_edit_ok:
  "\<forall>k. notifier e k = Delivered \<Longrightarrow> \<exists>w1. progress_edit e m w = (Inr (), w1)"
  by (simp add: progress_edit_def edit_message_text_def notify_def Let_def)

lemma collect_returns:
  "\<forall>k. notifier e k = Delivered \<Longrightarrow> \<forall>fut \<in> set futs. \<exists>res. fut = Inr res \<Longrightarrow>
   \<exists>t' w'. collect e pm n futs t w = (Inr t', w')"
proof (induction futs arbitrary: t w)
  case Nil
  then show ?case by simp
next
  case (Cons fut futs)
  from Cons.prems(2) obtain res where res: "fut = Inr res" by auto
  let ?t2 = "record_result res (t\<lparr>processed_count := processed_count t + 1\<rparr>)"
  obtain w1 where "progress_edit e (MsgProcessed (processed_count ?t2) n) w = (Inr (), w1)"
    using progress_edit_ok [OF Cons.prems(1)] by blast
  moreover have "\<And>w2. \<exists>t' w'. collect e pm n futs ?t2 w2 = (Inr t', w')"
    using Cons.IH [OF Cons.prems(1)] Cons.prems(2) by simp
  ultimately show ?case
    using res by (auto simp: Let_def)
qed

lemma completion_notice_ok:
  "\<forall>k. notifier e k = Delivered \<Longrightarrow> \<exists>w1. completion_notice e n w = (Inr (), w1)"
  by (simp add: completion_notice_def edit_message_text_def notify_def Let_def)

lemma fetch_single_returns:
  "both_present acc \<Longrightarrow>
   (\<forall>args msg. outcome = ConnectionError args msg \<longrightarrow> connection_error_reason args msg \<noteq> Inl IndexError) \<Longrightarrow>
   \<exists>res. fetch_single_jwt_token ps acc outcome = Inr res"
  by (cases outcome)
     (auto simp: fetch_made connection_error_reason_def
           split: sum.splits list.splits exc_arg.splits if_splits)

text \<open>
  Claim C3. Whenever the token stage returns, the attempted count is the number of
  accounts with a true \<^verbatim>\<open>uid\<close> and a true \<^verbatim>\<open>password\<close>, the success count and the failure
  count add up to it, and one token was collected per success, in whatever order the
  fetches complete. The stage does return when the accounts are dicts, the notifier
  delivers, and no fetch fails in its own exception handler.
\<close>

theorem acquire_counts:
  "(fetch_jwt_concurrently_superbot_style e accounts w = (Inr (tokens, s, f, attempted), w') \<longrightarrow>
      attempted = length (filter both_present accounts) \<and> s + f = attempted \<and> length tokens = s) \<and>
   ((\<forall>acc \<in> set accounts. \<exists>kvs. acc = JObj kvs) \<and> (\<forall>k. notifier e k = Delivered) \<and>
    (\<forall>i args msg. token_api e i = ConnectionError args msg \<longrightarrow>
        connection_error_reason args msg \<noteq> Inl IndexError) \<longrightarrow>
      (\<exists>r w'. fetch_jwt_concurrently_superbot_style e accounts w = (Inr r, w')))"
proof (rule conjI; rule impI)
  assume run: "fetch_jwt_concurrently_superbot_style e accounts w = (Inr (tokens, s, f, attempted), w')"
  obtain r0 w0 where start: "send_message e (MsgStartingJwt (length accounts)) w = (r0, w0)"
    by (cases "send_message e (MsgStartingJwt (length accounts)) w")
  from run start obtain n submitted where sub: "submit_loop accounts (0, []) = Inr (n, submitted)"
    by (auto simp: fetch_jwt_concurrently_superbot_style_def Let_def split: sum.splits prod.splits)
  from submit_loop_counts [OF sub]
  have n: "n = length (filter both_present accounts)" and subm: "submitted = filter both_present accounts"
    by simp_all
  let ?futures = "map (\<lambda>(i, acc). fetch_single_jwt_token (py_str e) acc (token_api e i)) (enumerate 0 submitted)"
  let ?pm = "case r0 of Inl ex \<Rightarrow> False | Inr u \<Rightarrow> True"
  from run start sub obtain t w1 where
    col: "collect e ?pm n (as_completed (completion e) ?futures) empty_tally w0 = (Inr t, w1)"
    and res: "tokens = tokens_list t" "s = success_count t" "f = fail_count t" "attempted = n"
    by (auto simp: fetch_jwt_concurrently_superbot_style_def Let_def
             split: sum.splits prod.splits if_splits)
  from collect_counts [OF col]
  have "success_count t + fail_count t = length submitted" "length (tokens_list t) = success_count t"
    by (simp_all add: empty_tally_def length_as_completed)
  with res n subm
  show "attempted = length (filter both_present accounts) \<and> s + f = attempted \<and> length tokens = s"
    by simp
next
  assume ok: "(\<forall>acc \<in> set accounts. \<exists>kvs. acc = JObj kvs) \<and> (\<forall>k. notifier e k = Delivered) \<and>
    (\<forall>i args msg. token_api e i = ConnectionError args msg \<longrightarrow>
        connection_error_reason args msg \<noteq> Inl IndexError)"
  then have deliv: "\<forall>k. notifier e k = Delivered" by blast
  obtain r0 w0 where start: "send_message e (MsgStartingJwt (length accounts)) w = (r0, w0)"
    by (cases "send_message e (MsgStartingJwt (length accounts)) w")
  from ok obtain n submitted where sub: "submit_loop accounts (0, []) = Inr (n, submitted)"
    using submit_loop_dicts [of accounts "(0, [])"] by auto
  from submit_loop_counts [OF sub] have subm: "submitted = filter both_present accounts"
    by simp
  let ?futures = "map (\<lambda>(i, acc). fetch_single_jwt_token (py_str e) acc (token_api e i)) (enumerate 0 submitted)"
  let ?pm = "case r0 of Inl ex \<Rightarrow> False | Inr u \<Rightarrow> True"
  have "\<forall>fut \<in> set ?futures. \<exists>res. fut = Inr res"
  proof
    fix fut assume "fut \<in> set ?futures"
    then obtain i acc where "(i, acc) \<in> set (enumerate 0 submitted)"
      and fut: "fut = fetch_single_jwt_token (py_str e) acc (token_api e i)"
      by auto
    then have "acc \<in> set submitted"
      by (auto simp: in_set_enumerate_eq)
    with subm have "both_present acc" by simp
    with ok fut show "\<exists>res. fut = Inr res"
      using fetch_single_returns [of acc "token_api e i" "py_str e"] by blast
  qed
  then have "\<forall>fut \<in> set (as_completed (completion e) ?futures). \<exists>res. fut = Inr res"
    by (simp only: set_as_completed)
  from collect_returns [OF deliv this]
  obtain t w1 where col: "collect e ?pm n (as_completed (completion e) ?futures) empty_tally w0 = (Inr t, w1)"
    by blast
  obtain w2 where fin: "(if ?pm then completion_notice e n w1 else (Inr (), w1)) = (Inr (), w2)"
    using completion_notice_ok [OF deliv, of n w1] by (cases ?pm) auto
  show "\<exists>r w'. fetch_jwt_concurrently_superbot_style e accounts w = (Inr r, w')"
    using start sub col fin
    by (simp add: fetch_jwt_concurrently_superbot_style_def Let_def)
qed

lemma second_times_out_run: "fst (fetch_jwt_concurrently_superbot_style second_times_out_env three_accounts fresh_world)
   = Inr ([JObj [(''token'', JStr ''eyJh'')]], 1, 1, 2)"
  by code_simp

lemma three_accounts_present: "length (filter both_present three_accounts) = 2"
  by code_simp

theorem acquire_counts_witness:
  "length (filter both_present three_accounts) = 2 \<and>
   fst (fetch_jwt_concurrently_superbot_style second_times_out_env three_accounts fresh_world)
     = Inr ([JObj [(''token'', JStr ''eyJh'')]], 1, 1, 2)"
proof -
  have dicts: "\<forall>acc \<in> set three_accounts. \<exists>kvs. acc = JObj kvs"
    by (simp add: three_accounts_def)
  have deliv: "\<forall>k. notifier second_times_out_env k = Delivered"
    by (simp add: second_times_out_env_def calm_env_def)
  have conn: "\<forall>i args msg. token_api second_times_out_env i = ConnectionError args msg \<longrightarrow>
        connection_error_reason args msg \<noteq> Inl IndexError"
    by (simp add: second_times_out_env_def calm_env_def)
  obtain r w' where run: "fetch_jwt_concurrently_superbot_style second_times_out_env three_accounts fresh_world = (Inr r, w')"
    using acquire_counts [of second_times_out_env three_accounts fresh_world] dicts deliv conn by blast
  obtain tokens s f attempted where r: "r = (tokens, s, f, attempted)"
    by (cases r)
  from acquire_counts [of second_times_out_env three_accounts fresh_world tokens s f attempted w'] run r
  have "attempted = length (filter both_present three_accounts)" "s + f = attempted" "length tokens = s"
    by simp_all
  show ?thesis using second_times_out_run three_accounts_present by simp
qed

section \<open>Facts about the publish step\<close>

lemma github_update_calm:
  assumes "github_token config = Some tok" "github_repo config = Some rp"
    "github_file_path config = Some path" "\<forall>k. store_fault e k = None"
  shows "github_update e config tokens w =
     (let new_content = dumps e tokens; k = store_calls w in
      case files w path of
        None \<Rightarrow>
          (Inr ''Created'',
           write_file path new_content
             (w\<lparr>store_calls := k + 3,
                trace := trace w @ [StoreGetRepo, StoreGetContents path, StoreCreate path new_content]\<rparr>))
      | Some (content, sha) \<Rightarrow>
          (if content \<noteq> new_content then
             (Inr ''Updated'',
              write_file path new_content
                (w\<lparr>store_calls := k + 3,
                   trace := trace w @ [StoreGetRepo, StoreGetContents path,
                                       StoreUpdate path new_content sha]\<rparr>))
           else
             (Inr ''Unchanged'',
              w\<lparr>store_calls := k + 2, trace := trace w @ [StoreGetRepo, StoreGetContents path]\<rparr>)))"
  using assms
  by (auto simp: github_update_def and_then_def of_result_def subscript_def get_repo_def
        get_contents_def update_file_def create_file_def create_token_file_def store_call_def
        ret_def Let_def write_file_def
      split: option.splits)

text \<open>
  Claim C4. With the three GitHub settings present and a store whose calls do not fail,
  the publish step reads the file at the configured path and then: creates it and reports
  "Created" when it is absent; reports "Unchanged" and issues no write when its content
  equals the new serialization; updates it, passing the version it has just read, and
  reports "Updated" when the content differs. So from an absent file, publishing a token
  set twice gives "Created" then "Unchanged", and publishing a token set with another
  serialization after that gives "Updated".
\<close>

theorem publish_outcomes:
  assumes "github_token config = Some tok" "github_repo config = Some rp"
    "github_file_path config = Some path" "\<forall>k. store_fault e k = None"
  shows
    "(files w path = None \<longrightarrow>
        fst (github_update e config tokens w) = Inr ''Created'' \<and>
        trace (snd (github_update e config tokens w))
          = trace w @ [StoreGetRepo, StoreGetContents path, StoreCreate path (dumps e tokens)] \<and>
        map_option fst (files (snd (github_update e config tokens w)) path) = Some (dumps e tokens)) \<and>
     (files w path = Some (content, sha) \<longrightarrow>
        (content = dumps e tokens \<longrightarrow>
           fst (github_update e config tokens w) = Inr ''Unchanged'' \<and>
           trace (snd (github_update e config tokens w))
             = trace w @ [StoreGetRepo, StoreGetContents path] \<and>
           files (snd (github_update e config tokens w)) = files w) \<and>
        (content \<noteq> dumps e tokens \<longrightarrow>
           fst (github_update e config tokens w) = Inr ''Updated'' \<and>
           trace (snd (github_update e config tokens w))
             = trace w @ [StoreGetRepo, StoreGetContents path, StoreUpdate path (dumps e tokens) sha] \<and>
           map_option fst (files (snd (github_update e config tokens w)) path) = Some (dumps e tokens))) \<and>
     (files w path = None \<longrightarrow> dumps e other \<noteq> dumps e tokens \<longrightarrow>
        fst (github_update e config tokens w) = Inr ''Created'' \<and>
        fst (github_update e config tokens (snd (github_update e config tokens w))) = Inr ''Unchanged'' \<and>
        fst (github_update e config other
               (snd (github_update e config tokens (snd (github_update e config tokens w)))))
          = Inr ''Updated'')"
  by (simp add: github_update_calm [OF assms] Let_def write_file_def)


theorem publish_outcomes_witness:
  "files fresh_world ''tokens.json'' = None \<and>
   dumps calm_env tokens_b \<noteq> dumps calm_env tokens_a \<and>
   fst (github_update calm_env sample_config tokens_a fresh_world) = Inr ''Created'' \<and>
   files published_world ''tokens.json'' = Some (dumps calm_env tokens_a, 0) \<and>
   fst (github_update calm_env sample_config tokens_a published_world) = Inr ''Unchanged'' \<and>
   trace (snd (github_update calm_env sample_config tokens_a published_world))
     = trace published_world @ [StoreGetRepo, StoreGetContents ''tokens.json''] \<and>
   fst (github_update calm_env sample_config tokens_b published_world) = Inr ''Updated'' \<and>
   trace (snd (github_update calm_env sample_config tokens_b published_world))
     = trace published_world
         @ [StoreGetRepo, StoreGetContents ''tokens.json'',
            StoreUpdate ''tokens.json'' (dumps calm_env tokens_b) 0]"
proof -
  have keys: "github_token sample_config = Some ''ghp_x''" "github_repo sample_config = Some ''owner/repo''"
    "github_file_path sample_config = Some ''tokens.json''"
    by (simp_all add: sample_config_def)
  have calm: "\<forall>k. store_fault calm_env k = None"
    by (simp add: calm_env_def)
  have absent: "files fresh_world ''tokens.json'' = None"
    by (simp add: fresh_world_def)
  have differ: "dumps calm_env tokens_b \<noteq> dumps calm_env tokens_a"
    by (simp add: calm_env_def sample_dumps_def tokens_a_def tokens_b_def)
  have present: "files published_world ''tokens.json'' = Some (dumps calm_env tokens_a, 0)"
    by (simp add: published_world_def github_update_calm [OF keys calm] absent Let_def write_file_def
          fresh_world_def)
  show ?thesis
    using publish_outcomes [OF keys calm, of fresh_world tokens_a "dumps calm_env tokens_a" 0 tokens_b]
          publish_outcomes [OF keys calm, of published_world tokens_a "dumps calm_env tokens_a" 0 tokens_b]
          publish_outcomes [OF keys calm, of published_world tokens_b "dumps calm_env tokens_a" 0 tokens_a]
          absent differ present
    by simp
qed

section \<open>Facts about the stages that precede the dispatch\<close>



























lemma task_steps_unfold:
  "task_steps e config w =
     (case send_message e MsgStep1 w of
        (Inl ex, w1) \<Rightarrow> (Inl ex, w1)
      | (Inr u, w1) \<Rightarrow>
          (let accounts = (case guest_accounts config of None \<Rightarrow> [] | Some l \<Rightarrow> l) in
           if accounts = [] then send_message e MsgGuestAccountsNotSet w1
           else
             (case jwt_api config of
                None \<Rightarrow> (Inl (KeyError ''jwt_api''), w1)
              | Some api_url \<Rightarrow>
                  (case fetch_jwt_concurrently_superbot_style e accounts w1 of
                     (Inl ex, w2) \<Rightarrow> (Inl ex, w2)
                   | (Inr (token_dicts, jwt_success, jwt_fail, jwt_total), w2) \<Rightarrow>
                       (case send_message e (MsgStep1Result jwt_total jwt_success jwt_fail) w2 of
                          (Inl ex, w3) \<Rightarrow> (Inl ex, w3)
                        | (Inr u, w3) \<Rightarrow>
                            (if token_dicts = [] then send_message e MsgNoTokens w3
                             else
                               (case send_message e MsgStep2 w3 of
                                  (Inl ex, w4) \<Rightarrow> (Inl ex, w4)
                                | (Inr u, w4) \<Rightarrow>
                                    (case github_stage e config token_dicts w4 of
                                       (Inl ex, w5) \<Rightarrow> (Inl ex, w5)
                                     | (Inr None, w5) \<Rightarrow> (Inr (), w5)
                                     | (Inr (Some status), w5) \<Rightarrow>
                                         likes_and_summary e config jwt_success jwt_total status w5))))))))"
  by (simp add: task_steps_def and_then_def of_result_def subscript_def ret_def Let_def
           split: prod.splits sum.splits option.splits)






section \<open>Facts about the end of a run\<close>

lemma send_Inr: "send_message e m w = (Inr u, w') \<Longrightarrow> trace w' = trace w @ [Sent m]"
  by (cases "notifier e (notifier_calls w)")
     (auto simp: send_message_def notify_def Let_def)

lemma send_closes: "send_message e m w = (Inr u, w') \<Longrightarrow> closes_with m (trace w')"
  by (simp add: send_Inr closes_with_def)

lemma closes_with_report: "closes_with m tr \<Longrightarrow> is_report m \<Longrightarrow> ends_with_report tr"
  by (cases tr rule: rev_cases) (simp_all add: closes_with_def ends_with_report_def)

lemma github_stage_None:
  assumes "github_stage e config tokens w = (Inr None, w')"
  shows "\<exists>ex w1. github_try e config tokens w = (Inl ex, w1) \<and> closes_with (MsgStep2Error ex) (trace w')"
proof -
  obtain r w1 where m: "github_try e config tokens w = (r, w1)"
    by (cases "github_try e config tokens w")
  show ?thesis
  proof (cases r)
    case (Inl ex)
    with assms m
    have "and_then (send_message e (MsgStep2Error ex)) (\<lambda>u :: unit. ret (None :: string option)) w1
            = (Inr None, w')"
      by (simp add: github_stage_def)
    then have "send_message e (MsgStep2Error ex) w1 = (Inr (), w')"
      by (auto simp: and_then_def ret_def split: prod.splits sum.splits)
    then have "closes_with (MsgStep2Error ex) (trace w')"
      by (rule send_closes)
    with m Inl show ?thesis by blast
  next
    case (Inr status)
    with assms m show ?thesis by (simp add: github_stage_def)
  qed
qed

lemma github_stage_Some:
  "github_stage e config tokens w = (Inr (Some status), w') \<longleftrightarrow>
   github_try e config tokens w = (Inr status, w')"
proof (cases "github_try e config tokens w")
  case (Pair r w1)
  then show ?thesis
    by (cases r)
       (auto simp: github_stage_def and_then_def ret_def split: prod.splits sum.splits)
qed

lemma likes_and_summary_Inr:
  assumes "likes_and_summary e config s n status w = (Inr u, w')"
  shows "\<exists>l w3. like_stage e config (sleep 60 (snd (send_message e MsgWaiting60 w))) = (Inr l, w3) \<and>
           closes_with (MsgTaskComplete s n status (like_success l) (like_fail l)) (trace w')"
proof -
  from assms obtain l :: likes and w2 w3 where
    "send_message e MsgWaiting60 w = (Inr (), w2)"
    "like_stage e config (sleep 60 w2) = (Inr l, w3)"
    "send_message e (MsgTaskComplete s n status (like_success l) (like_fail l)) w3 = (Inr (), w')"
    by (auto simp: likes_and_summary_def and_then_def split: prod.splits sum.splits)
  then show ?thesis
    by (auto intro: send_closes)
qed

text \<open>What closes a run whose steps complete without an exception, path by path.\<close>

lemma steps_closing:
  assumes st: "task_steps e config w = (Inr (), w')"
    and acc: "accounts = (case guest_accounts config of None \<Rightarrow> [] | Some l \<Rightarrow> l)"
    and w1: "w1 = snd (send_message e MsgStep1 w)"
  shows
    "(accounts = [] \<longrightarrow> closes_with MsgGuestAccountsNotSet (trace w')) \<and>
     (accounts \<noteq> [] \<and>
      fetch_jwt_concurrently_superbot_style e accounts w1 = (Inr ([], s0, f0, n0), w0) \<longrightarrow>
        closes_with MsgNoTokens (trace w')) \<and>
     (accounts \<noteq> [] \<and> tokens \<noteq> [] \<and>
      fetch_jwt_concurrently_superbot_style e accounts w1 = (Inr (tokens, s, f, n), w2) \<and>
      fst (github_try e config tokens
             (snd (send_message e MsgStep2 (snd (send_message e (MsgStep1Result n s f) w2))))) = Inl ex \<longrightarrow>
        closes_with (MsgStep2Error ex) (trace w')) \<and>
     (accounts \<noteq> [] \<and> tokens \<noteq> [] \<and>
      fetch_jwt_concurrently_superbot_style e accounts w1 = (Inr (tokens, s, f, n), w2) \<and>
      github_try e config tokens
          (snd (send_message e MsgStep2 (snd (send_message e (MsgStep1Result n s f) w2))))
        = (Inr status, w5) \<and>
      like_stage e config (sleep 60 (snd (send_message e MsgWaiting60 w5))) = (Inr l, w6) \<longrightarrow>
        closes_with (MsgTaskComplete s n status (like_success l) (like_fail l)) (trace w'))"
proof -
  obtain u1 where s1: "send_message e MsgStep1 w = (Inr u1, w1)"
    using st w1
    by (cases "send_message e MsgStep1 w"; cases "fst (send_message e MsgStep1 w)")
       (auto simp: task_steps_unfold)
  have A: "closes_with MsgGuestAccountsNotSet (trace w')" if "accounts = []"
    using st s1 that acc by (auto simp: task_steps_unfold intro: send_closes)
  have rest: "\<exists>u3 w3 u4 w4. send_message e (MsgStep1Result n s f) w2 = (Inr u3, w3) \<and>
        (tokens = [] \<longrightarrow> send_message e MsgNoTokens w3 = (Inr (), w')) \<and>
        (tokens \<noteq> [] \<longrightarrow> send_message e MsgStep2 w3 = (Inr u4, w4) \<and>
           ((github_stage e config tokens w4 = (Inr None, w')) \<or>
            (\<exists>status w5. github_stage e config tokens w4 = (Inr (Some status), w5) \<and>
               likes_and_summary e config s n status w5 = (Inr (), w'))))"
    if ne: "accounts \<noteq> []"
      and run: "fetch_jwt_concurrently_superbot_style e accounts w1 = (Inr (tokens, s, f, n), w2)"
    for tokens s f n w2
    using st s1 ne run acc
    by (auto simp: task_steps_unfold Let_def split: option.splits prod.splits sum.splits if_splits)
  have B: "closes_with MsgNoTokens (trace w')"
    if "accounts \<noteq> []" "fetch_jwt_concurrently_superbot_style e accounts w1 = (Inr ([], s0, f0, n0), w0)"
    using rest [OF that] by (auto intro: send_closes)
  have C: "closes_with (MsgStep2Error ex) (trace w')"
    if ne: "accounts \<noteq> []" and tk: "tokens \<noteq> []"
      and run: "fetch_jwt_concurrently_superbot_style e accounts w1 = (Inr (tokens, s, f, n), w2)"
      and up: "fst (github_try e config tokens
             (snd (send_message e MsgStep2 (snd (send_message e (MsgStep1Result n s f) w2))))) = Inl ex"
  proof -
    from rest [OF ne run] tk obtain u3 w3 u4 w4 where
      s3: "send_message e (MsgStep1Result n s f) w2 = (Inr u3, w3)"
      and s4: "send_message e MsgStep2 w3 = (Inr u4, w4)"
      and g: "(github_stage e config tokens w4 = (Inr None, w')) \<or>
            (\<exists>status w5. github_stage e config tokens w4 = (Inr (Some status), w5) \<and>
               likes_and_summary e config s n status w5 = (Inr (), w'))"
      by blast
    from up s3 s4 have raised: "fst (github_try e config tokens w4) = Inl ex" by simp
    then have "\<not> (\<exists>status w5. github_stage e config tokens w4 = (Inr (Some status), w5))"
      by (auto simp: github_stage_Some)
    with g have "github_stage e config tokens w4 = (Inr None, w')" by blast
    from github_stage_None [OF this] raised show ?thesis by auto
  qed
  have D: "closes_with (MsgTaskComplete s n status (like_success l) (like_fail l)) (trace w')"
    if ne: "accounts \<noteq> []" and tk: "tokens \<noteq> []"
      and run: "fetch_jwt_concurrently_superbot_style e accounts w1 = (Inr (tokens, s, f, n), w2)"
      and up: "github_try e config tokens
          (snd (send_message e MsgStep2 (snd (send_message e (MsgStep1Result n s f) w2))))
        = (Inr status, w5)"
      and lk: "like_stage e config (sleep 60 (snd (send_message e MsgWaiting60 w5))) = (Inr l, w6)"
  proof -
    from rest [OF ne run] tk obtain u3 w3 u4 w4 where
      s3: "send_message e (MsgStep1Result n s f) w2 = (Inr u3, w3)"
      and s4: "send_message e MsgStep2 w3 = (Inr u4, w4)"
      and g: "(github_stage e config tokens w4 = (Inr None, w')) \<or>
            (\<exists>status w5. github_stage e config tokens w4 = (Inr (Some status), w5) \<and>
               likes_and_summary e config s n status w5 = (Inr (), w'))"
      by blast
    from up s3 s4 have "github_stage e config tokens w4 = (Inr (Some status), w5)"
      by (simp add: github_stage_Some)
    with g have "likes_and_summary e config s n status w5 = (Inr (), w')" by auto
    from likes_and_summary_Inr [OF this] lk show ?thesis by auto
  qed
  from A B C D show ?thesis by blast
qed


lemma github_stage_None_report:
  "github_stage e config tokens w = (Inr None, w') \<Longrightarrow> ends_with_report (trace w')"
  using github_stage_None [of e config tokens w w']
  by (auto intro: closes_with_report simp: is_report_def)

lemma likes_and_summary_report:
  "likes_and_summary e config s n status w = (Inr u, w') \<Longrightarrow> ends_with_report (trace w')"
  using likes_and_summary_Inr [of e config s n status w u w']
  by (auto intro: closes_with_report simp: is_report_def)

lemma send_report:
  "send_message e m w = (Inr u, w') \<Longrightarrow> is_report m \<Longrightarrow> ends_with_report (trace w')"
  by (auto intro: closes_with_report send_closes)

lemma task_steps_Inr:
  assumes "task_steps e config w = (Inr u, w')"
  shows "ends_with_report (trace w')"
  using assms
  by (auto simp: task_steps_unfold Let_def is_report_def
           split: prod.splits sum.splits option.splits if_splits
           intro: send_report github_stage_None_report likes_and_summary_report)

text \<open>
  Claim C2. A run with a configuration that is not empty, whenever it returns, has sent a
  closing notice as its last effect, and which one is fixed by the path: on an exception
  of the steps, the notice that the task failed unexpectedly, naming the exception; with
  no guest accounts, the notice that none are set; with an empty token list, the notice
  that no tokens were generated; on an exception of the GitHub step, the notice of the
  GitHub error, naming the exception; on full completion, the final summary with the
  token counts, the GitHub status and the like counts of this run. The run returns
  whenever the notifier delivers.
\<close>

theorem run_ends_with_report:
  assumes cfg: "get_config chat_id m = (config, m1)" and ne: "config \<noteq> empty_config"
    and acc: "accounts = (case guest_accounts config of None \<Rightarrow> [] | Some l \<Rightarrow> l)"
    and w1: "w1 = snd (send_message e MsgStep1 w)"
    and fin: "final = snd (snd (run_task_logic e chat_id is_manual_run (m, w)))"
  shows
    "(fst (run_task_logic e chat_id is_manual_run (m, w)) = Returned \<longrightarrow>
        ends_with_report (trace final)) \<and>
     ((\<forall>k. notifier e k = Delivered) \<longrightarrow>
        fst (run_task_logic e chat_id is_manual_run (m, w)) = Returned) \<and>
     (fst (task_steps e config w) = Inl ex0 \<and>
      notifier e (notifier_calls (snd (task_steps e config w))) = Delivered \<longrightarrow>
        fst (run_task_logic e chat_id is_manual_run (m, w)) = Returned \<and>
        closes_with (MsgTaskFailed ex0) (trace final)) \<and>
     (fst (task_steps e config w) = Inr () \<longrightarrow>
        fst (run_task_logic e chat_id is_manual_run (m, w)) = Returned \<and>
        (accounts = [] \<longrightarrow> closes_with MsgGuestAccountsNotSet (trace final)) \<and>
        (accounts \<noteq> [] \<and>
         fetch_jwt_concurrently_superbot_style e accounts w1 = (Inr ([], s0, f0, n0), w0) \<longrightarrow>
           closes_with MsgNoTokens (trace final)) \<and>
        (accounts \<noteq> [] \<and> tokens \<noteq> [] \<and>
         fetch_jwt_concurrently_superbot_style e accounts w1 = (Inr (tokens, s, f, n), w2) \<and>
         fst (github_try e config tokens
                (snd (send_message e MsgStep2 (snd (send_message e (MsgStep1Result n s f) w2))))) = Inl ex \<longrightarrow>
           closes_with (MsgStep2Error ex) (trace final)) \<and>
        (accounts \<noteq> [] \<and> tokens \<noteq> [] \<and>
         fetch_jwt_concurrently_superbot_style e accounts w1 = (Inr (tokens, s, f, n), w2) \<and>
         github_try e config tokens
             (snd (send_message e MsgStep2 (snd (send_message e (MsgStep1Result n s f) w2))))
           = (Inr status, w5) \<and>
         like_stage e config (sleep 60 (snd (send_message e MsgWaiting60 w5))) = (Inr l, w6) \<longrightarrow>
           closes_with (MsgTaskComplete s n status (like_success l) (like_fail l)) (trace final)))"
proof -
  obtain r w' where st: "task_steps e config w = (r, w')"
    by (cases "task_steps e config w")
  show ?thesis
  proof (cases r)
    case (Inl ex1)
    obtain r2 w2' where h: "send_message e (MsgTaskFailed ex1) w' = (r2, w2')"
      by (cases "send_message e (MsgTaskFailed ex1) w'")
    show ?thesis
    proof (cases r2)
      case l2: (Inl ex2)
      then have nd: "notifier e (notifier_calls w') \<noteq> Delivered"
        using h by (auto simp: send_message_def notify_def Let_def)
      then have "\<not> (\<forall>k. notifier e k = Delivered)"
        by blast
      with cfg ne st Inl h l2 nd fin show ?thesis
        by (simp add: run_task_logic_def)
    next
      case r2: (Inr u)
      with h have c: "closes_with (MsgTaskFailed ex1) (trace w2')"
        by (auto intro: send_closes)
      then have "ends_with_report (trace w2')"
        by (rule closes_with_report) (simp add: is_report_def)
      with cfg ne st Inl h r2 c fin show ?thesis
        by (auto simp: run_task_logic_def)
    qed
  next
    case (Inr u)
    with st have st': "task_steps e config w = (Inr (), w')" by simp
    have rep: "ends_with_report (trace w')"
      using st' by (rule task_steps_Inr)
    have run: "run_task_logic e chat_id is_manual_run (m, w) = (Returned, m1, w')"
      using cfg ne st' by (simp add: run_task_logic_def)
    then have f: "final = w'" using fin by simp
    from steps_closing [OF st' acc w1, of s0 f0 n0 w0 tokens s f n w2 ex status w5 l w6]
    show ?thesis
      using run f rep st' by simp
  qed
qed

lemma sample_cfg: "get_config 7 (init_manager sample_settings) = (sample_config, init_manager sample_settings)"
  by (simp add: get_config_def init_manager_def sample_settings_def)

lemma no_accounts_cfg:
  "get_config 7 (init_manager no_accounts_settings)
     = (sample_config\<lparr>guest_accounts := None\<rparr>, init_manager no_accounts_settings)"
  by (simp add: get_config_def init_manager_def no_accounts_settings_def)

lemma no_jwt_cfg:
  "get_config 7 (init_manager no_jwt_settings)
     = (sample_config\<lparr>jwt_api := None\<rparr>, init_manager no_jwt_settings)"
  by (simp add: get_config_def init_manager_def no_jwt_settings_def)

lemma sample_config_nonempty: "sample_config \<noteq> empty_config"
  by (simp add: sample_config_def empty_config_def)

lemma no_accounts_nonempty: "sample_config\<lparr>guest_accounts := None\<rparr> \<noteq> empty_config"
  by (simp add: sample_config_def empty_config_def)

lemma no_jwt_nonempty: "sample_config\<lparr>jwt_api := None\<rparr> \<noteq> empty_config"
  by (simp add: sample_config_def empty_config_def)

lemma calm_delivers: "\<forall>k. notifier calm_env k = Delivered"
  by (simp add: calm_env_def)

lemma sample_accounts:
  "three_accounts = (case guest_accounts sample_config of None \<Rightarrow> [] | Some l \<Rightarrow> l)"
  by (simp add: sample_config_def)

lemma three_accounts_nonempty: "three_accounts \<noteq> []"
  by (simp add: three_accounts_def)

lemma all_timeout_fetch:
  "fst (fetch_jwt_concurrently_superbot_style all_timeout_env three_accounts
          (snd (send_message all_timeout_env MsgStep1 fresh_world))) = Inr ([], 0, 2, 2)"
  by code_simp

lemma store_down_fetch:
  "fst (fetch_jwt_concurrently_superbot_style store_down_env three_accounts
          (snd (send_message store_down_env MsgStep1 fresh_world))) = Inr (two_tokens, 2, 0, 2)"
  by code_simp

lemma calm_fetch:
  "fst (fetch_jwt_concurrently_superbot_style calm_env three_accounts
          (snd (send_message calm_env MsgStep1 fresh_world))) = Inr (two_tokens, 2, 0, 2)"
  by code_simp


lemma store_down_try:
  "fst (github_try store_down_env sample_config two_tokens (before_publish store_down_env))
     = Inl (OtherException ''401 Bad credentials'')"
  by code_simp


lemma calm_try:
  "fst (github_try calm_env sample_config two_tokens (before_publish calm_env)) = Inr ''Created''"
  by code_simp

lemma calm_likes:
  "fst (like_stage calm_env sample_config
          (sleep 60 (snd (send_message calm_env MsgWaiting60 (after_publish calm_env))))) = Inr two_likes"
  by code_simp

lemma send_delivers:
  "\<forall>k. notifier e k = Delivered \<Longrightarrow> send_message e m w = (Inr (), snd (send_message e m w))"
  by (simp add: send_message_def notify_def Let_def)

text \<open>The steps complete when the notifier delivers and no stage raises.\<close>

lemma task_steps_complete:
  assumes deliv: "\<forall>k. notifier e k = Delivered"
    and acc: "guest_accounts config = Some accounts" "accounts \<noteq> []"
    and api: "jwt_api config = Some api_url"
    and run: "fetch_jwt_concurrently_superbot_style e accounts (snd (send_message e MsgStep1 w))
                = (Inr (tokens, s, f, n), w2)"
    and tk: "tokens \<noteq> []"
    and up: "github_try e config tokens
               (snd (send_message e MsgStep2 (snd (send_message e (MsgStep1Result n s f) w2))))
             = (Inr status, w5)"
    and lk: "like_stage e config (sleep 60 (snd (send_message e MsgWaiting60 w5))) = (Inr l, w6)"
  shows "fst (task_steps e config w) = Inr ()"
proof -
  note d = send_delivers [OF deliv]
  obtain wa where sa: "send_message e MsgStep1 w = (Inr (), wa)"
    using d by blast
  obtain wb where sb: "send_message e (MsgStep1Result n s f) w2 = (Inr (), wb)"
    using d by blast
  obtain wc where sc: "send_message e MsgStep2 wb = (Inr (), wc)"
    using d by blast
  obtain wd where sd: "send_message e MsgWaiting60 w5 = (Inr (), wd)"
    using d by blast
  obtain we where se: "send_message e (MsgTaskComplete s n status (like_success l) (like_fail l)) w6
      = (Inr (), we)"
    using d by blast
  have run': "fetch_jwt_concurrently_superbot_style e accounts wa = (Inr (tokens, s, f, n), w2)"
    using run sa by simp
  have g: "github_stage e config tokens wc = (Inr (Some status), w5)"
    using up sb sc by (simp add: github_stage_Some)
  have lk': "like_stage e config (sleep 60 wd) = (Inr l, w6)"
    using lk sd by simp
  have fin: "likes_and_summary e config s n status w5 = (Inr (), we)"
    using sd lk' se by (simp add: likes_and_summary_def and_then_def)
  show ?thesis
    using sa acc api run' tk sb sc g fin
    by (simp add: task_steps_unfold)
qed

lemma steps_no_accounts:
  "fst (task_steps calm_env (sample_config\<lparr>guest_accounts := None\<rparr>) fresh_world) = Inr ()"
  by code_simp

lemma steps_all_timeout:
  "fst (task_steps all_timeout_env sample_config fresh_world) = Inr ()"
  by code_simp

lemma steps_store_down:
  "fst (task_steps store_down_env sample_config fresh_world) = Inr ()"
  by code_simp

lemma steps_no_jwt:
  "fst (task_steps calm_env (sample_config\<lparr>jwt_api := None\<rparr>) fresh_world) = Inl (KeyError ''jwt_api'')"
  by code_simp

lemma steps_calm: "fst (task_steps calm_env sample_config fresh_world) = Inr ()"
proof (rule task_steps_complete [OF calm_delivers])
  show "guest_accounts sample_config = Some three_accounts"
    by (simp add: sample_config_def)
  show "three_accounts \<noteq> []"
    by (rule three_accounts_nonempty)
  show "jwt_api sample_config = Some ''https://jwt.example/token''"
    by (simp add: sample_config_def)
  show "fetch_jwt_concurrently_superbot_style calm_env three_accounts
          (snd (send_message calm_env MsgStep1 fresh_world)) = (Inr (two_tokens, 2, 0, 2), after_tokens calm_env)"
    using calm_fetch by (simp add: prod_eq_iff after_tokens_def)
  show "two_tokens \<noteq> []"
    by (simp add: two_tokens_def)
  show "github_try calm_env sample_config two_tokens
          (snd (send_message calm_env MsgStep2
             (snd (send_message calm_env (MsgStep1Result 2 2 0) (after_tokens calm_env)))))
        = (Inr ''Created'', after_publish calm_env)"
    using calm_try by (simp add: prod_eq_iff after_publish_def before_publish_def)
  show "like_stage calm_env sample_config
          (sleep 60 (snd (send_message calm_env MsgWaiting60 (after_publish calm_env))))
        = (Inr two_likes, snd (like_stage calm_env sample_config
          (sleep 60 (snd (send_message calm_env MsgWaiting60 (after_publish calm_env))))))"
    using calm_likes by (simp add: prod_eq_iff)
qed

lemma calm_fetch_pair:
  "fetch_jwt_concurrently_superbot_style calm_env three_accounts
          (snd (send_message calm_env MsgStep1 fresh_world)) = (Inr (two_tokens, 2, 0, 2), after_tokens calm_env)"
  using calm_fetch by (simp add: prod_eq_iff after_tokens_def)

lemma store_down_fetch_pair:
  "fetch_jwt_concurrently_superbot_style store_down_env three_accounts
          (snd (send_message store_down_env MsgStep1 fresh_world))
     = (Inr (two_tokens, 2, 0, 2), after_tokens store_down_env)"
  using store_down_fetch by (simp add: prod_eq_iff after_tokens_def)

lemma all_timeout_fetch_pair:
  "fetch_jwt_concurrently_superbot_style all_timeout_env three_accounts
          (snd (send_message all_timeout_env MsgStep1 fresh_world))
     = (Inr ([], 0, 2, 2), after_tokens all_timeout_env)"
  using all_timeout_fetch by (simp add: prod_eq_iff after_tokens_def)

lemma calm_try_pair:
  "github_try calm_env sample_config two_tokens
          (snd (send_message calm_env MsgStep2
             (snd (send_message calm_env (MsgStep1Result 2 2 0) (after_tokens calm_env)))))
        = (Inr ''Created'', after_publish calm_env)"
  using calm_try by (simp add: prod_eq_iff after_publish_def before_publish_def)

lemma calm_likes_pair:
  "like_stage calm_env sample_config
          (sleep 60 (snd (send_message calm_env MsgWaiting60 (after_publish calm_env))))
        = (Inr two_likes, snd (like_stage calm_env sample_config
          (sleep 60 (snd (send_message calm_env MsgWaiting60 (after_publish calm_env))))))"
  using calm_likes by (simp add: prod_eq_iff)

theorem run_ends_with_report_witness:
  "fst (run_task_logic calm_env 7 True (init_manager sample_settings, fresh_world)) = Returned \<and>
   closes_with (MsgTaskComplete 2 2 ''Created'' 2 0)
     (trace (snd (snd (run_task_logic calm_env 7 True (init_manager sample_settings, fresh_world))))) \<and>
   closes_with MsgGuestAccountsNotSet
     (trace (snd (snd (run_task_logic calm_env 7 True (init_manager no_accounts_settings, fresh_world))))) \<and>
   closes_with MsgNoTokens
     (trace (snd (snd (run_task_logic all_timeout_env 7 True (init_manager sample_settings, fresh_world))))) \<and>
   closes_with (MsgStep2Error (OtherException ''401 Bad credentials''))
     (trace (snd (snd (run_task_logic store_down_env 7 True (init_manager sample_settings, fresh_world))))) \<and>
   closes_with (MsgTaskFailed (KeyError ''jwt_api''))
     (trace (snd (snd (run_task_logic calm_env 7 True (init_manager no_jwt_settings, fresh_world)))))"
proof -
  have none: "[] = (case guest_accounts (sample_config\<lparr>guest_accounts := None\<rparr>) of None \<Rightarrow> [] | Some l \<Rightarrow> l)"
    by simp
  have three': "three_accounts = (case guest_accounts (sample_config\<lparr>jwt_api := None\<rparr>) of None \<Rightarrow> [] | Some l \<Rightarrow> l)"
    by (simp add: sample_config_def)
  have full: "fst (run_task_logic calm_env 7 True (init_manager sample_settings, fresh_world)) = Returned \<and>
      closes_with (MsgTaskComplete 2 2 ''Created'' 2 0)
        (trace (snd (snd (run_task_logic calm_env 7 True (init_manager sample_settings, fresh_world)))))"
    using run_ends_with_report [where e = calm_env and is_manual_run = True and w = fresh_world
            and tokens = two_tokens and s = 2 and f = 0 and n = 2
            and ?w2.0 = "after_tokens calm_env" and status = "''Created''"
            and ?w5.0 = "after_publish calm_env" and l = two_likes
            and ?w6.0 = "snd (like_stage calm_env sample_config
               (sleep 60 (snd (send_message calm_env MsgWaiting60 (after_publish calm_env)))))",
            OF sample_cfg sample_config_nonempty sample_accounts refl refl]
          steps_calm three_accounts_nonempty calm_fetch_pair calm_try_pair calm_likes_pair
    by (simp add: two_tokens_def two_likes_def)
  have a: "closes_with MsgGuestAccountsNotSet
     (trace (snd (snd (run_task_logic calm_env 7 True (init_manager no_accounts_settings, fresh_world)))))"
    using run_ends_with_report [where e = calm_env and is_manual_run = True and w = fresh_world,
            OF no_accounts_cfg no_accounts_nonempty none refl refl]
          steps_no_accounts
    by simp
  have b: "closes_with MsgNoTokens
     (trace (snd (snd (run_task_logic all_timeout_env 7 True (init_manager sample_settings, fresh_world)))))"
    using run_ends_with_report [where e = all_timeout_env and is_manual_run = True and w = fresh_world
            and ?s0.0 = 0 and ?f0.0 = 2 and ?n0.0 = 2 and ?w0.0 = "after_tokens all_timeout_env",
            OF sample_cfg sample_config_nonempty sample_accounts refl refl]
          steps_all_timeout three_accounts_nonempty all_timeout_fetch_pair
    by simp
  have c: "closes_with (MsgStep2Error (OtherException ''401 Bad credentials''))
     (trace (snd (snd (run_task_logic store_down_env 7 True (init_manager sample_settings, fresh_world)))))"
    using run_ends_with_report [where e = store_down_env and is_manual_run = True and w = fresh_world
            and tokens = two_tokens and s = 2 and f = 0 and n = 2
            and ?w2.0 = "after_tokens store_down_env" and ex = "OtherException ''401 Bad credentials''",
            OF sample_cfg sample_config_nonempty sample_accounts refl refl]
          steps_store_down three_accounts_nonempty store_down_fetch_pair store_down_try
    by (simp add: two_tokens_def before_publish_def)
  have d: "closes_with (MsgTaskFailed (KeyError ''jwt_api''))
     (trace (snd (snd (run_task_logic calm_env 7 True (init_manager no_jwt_settings, fresh_world)))))"
    using run_ends_with_report [where e = calm_env and is_manual_run = True and w = fresh_world
            and ?ex0.0 = "KeyError ''jwt_api''",
            OF no_jwt_cfg no_jwt_nonempty three' refl refl]
          steps_no_jwt calm_delivers
    by simp
  from full a b c d show ?thesis by simp
qed


section \<open>Facts about the manager\<close>

lemma init_ok: "registry_ok (init_manager loaded)"
  by (simp add: registry_ok_def init_manager_def)

lemma wait_left_ok: "registry_ok (m\<lparr>wait_left := f\<rparr>) = registry_ok m"
  by (simp add: registry_ok_def)

lemma get_config_ok: "registry_ok m \<Longrightarrow> registry_ok (snd (get_config c m))"
  by (simp add: get_config_def registry_ok_def split: option.splits)

lemma get_config_same:
  "threads (snd (get_config c m)) = threads m"
  "running (snd (get_config c m)) = running m"
  "stop_events (snd (get_config c m)) = stop_events m"
  "next_event (snd (get_config c m)) = next_event m"
  by (simp_all add: get_config_def split: option.splits)

lemma set_and_pop_ok:
  assumes "registry_ok m"
  shows "registry_ok (set_and_pop c m)"
proof (cases "threads m c")
  case None
  with assms show ?thesis by (simp add: set_and_pop_def)
next
  case (Some ev0)
  let ?m' = "m\<lparr>stop_events := insert ev0 (stop_events m), threads := (threads m)(c := None)\<rparr>"
  have "(c', ev) \<in> set (running m) \<Longrightarrow> ev \<notin> insert ev0 (stop_events m) \<Longrightarrow>
          ((threads m)(c := None)) c' = Some ev" for c' ev
  proof -
    assume r: "(c', ev) \<in> set (running m)" and n: "ev \<notin> insert ev0 (stop_events m)"
    then have t: "threads m c' = Some ev"
      using assms by (simp add: registry_ok_def)
    with Some n have "c' \<noteq> c" by auto
    with t show ?thesis by simp
  qed
  moreover have "ev0 < next_event m"
    using assms Some by (simp add: registry_ok_def)
  ultimately have "registry_ok ?m'"
    using assms by (simp add: registry_ok_def) 
  with Some show ?thesis by (simp add: set_and_pop_def)
qed

lemma ended_ok: "registry_ok m \<Longrightarrow> registry_ok (ended ev m)"
  unfolding registry_ok_def ended_def
  by (auto simp: distinct_map_filter)

lemma start_ok:
  assumes "registry_ok m"
  shows "registry_ok (fst (snd (start_liker_task e c (m, w))))"
proof -
  obtain config m1 where g: "get_config c m = (config, m1)"
    by (cases "get_config c m")
  have ok1: "registry_ok m1"
    using get_config_ok [OF assms, of c] g by simp
  show ?thesis
  proof (cases "\<not> check_config_complete config \<or> threads m1 c \<noteq> None")
    case True
    with g ok1 show ?thesis
      by (auto simp: start_liker_task_def split: prod.splits)
  next
    case False
    then have free: "threads m1 c = None" by simp
    let ?m2 = "m1\<lparr>next_event := next_event m1 + 1,
                  threads := (threads m1)(c \<mapsto> next_event m1),
                  running := running m1 @ [(c, next_event m1)]\<rparr>"
    let ?m2' = "?m2\<lparr>wait_left := (wait_left m1)(next_event m1 := 0)\<rparr>"
    have fresh: "next_event m1 \<notin> snd ` set (running m1)"
      using ok1 by (force simp: registry_ok_def)
    have old: "(c', ev) \<in> set (running m1) \<Longrightarrow> ev \<notin> stop_events m1 \<Longrightarrow> c' \<noteq> c" for c' ev
      using ok1 free by (auto simp: registry_ok_def)
    have "registry_ok ?m2"
      unfolding registry_ok_def
    proof (intro conjI allI impI ballI)
      fix c' ev
      assume "(c', ev) \<in> set (running ?m2)" and "ev \<notin> stop_events ?m2"
      then show "threads ?m2 c' = Some ev"
        using ok1 old [of c' ev] by (auto simp: registry_ok_def)
    next
      show "distinct (map snd (running ?m2))"
        using ok1 fresh by (simp add: registry_ok_def)
    next
      fix c' ev
      assume "(c', ev) \<in> set (running ?m2)"
      then show "ev < next_event ?m2"
        using ok1 by (auto simp: registry_ok_def less_Suc_eq)
    next
      fix ev
      assume "ev \<in> stop_events ?m2"
      then show "ev < next_event ?m2"
        using ok1 by (auto simp: registry_ok_def less_Suc_eq)
    next
      fix c' ev
      assume "threads ?m2 c' = Some ev"
      then show "ev < next_event ?m2"
        using ok1 by (auto simp: registry_ok_def less_Suc_eq split: if_splits)
    qed
    then have "registry_ok ?m2'"
      by (simp only: wait_left_ok)
    with g False show ?thesis
      by (auto simp: start_liker_task_def Let_def split: prod.splits)
  qed
qed

lemma stop_ok:
  assumes "registry_ok m"
  shows "registry_ok (fst (snd (stop_liker_task e c (m, w))))"
  using assms set_and_pop_ok [OF assms, of c]
  by (auto simp: stop_liker_task_def split: prod.splits sum.splits)

lemma run_ok:
  assumes "registry_ok m"
  shows "registry_ok (fst (snd (run_task_logic e c manual (m, w))))"
proof -
  obtain config m1 where g: "get_config c m = (config, m1)"
    by (cases "get_config c m")
  have ok1: "registry_ok m1"
    using get_config_ok [OF assms, of c] g by simp
  with g set_and_pop_ok [OF ok1, of c] show ?thesis
    by (auto simp: run_task_logic_def split: prod.splits sum.splits)
qed

lemma cycle_ok:
  assumes "registry_ok m"
  shows "registry_ok (fst (task_cycle e c ev (m, w)))"
proof -
  have "registry_ok (fst (snd (run_task_logic e c False (m, w'))))" for w'
    using assms by (rule run_ok)
  then have r: "run_task_logic e c False (m, w') = (x, m2, w2) \<Longrightarrow> registry_ok m2" for w' x m2 w2
    by (metis fst_conv snd_conv)
  show ?thesis
    using assms
    by (auto simp: task_cycle_def wait_left_ok split: prod.splits sum.splits exit.splits
             intro: ended_ok dest: r)
qed

lemma wait_iteration_ok:
  "registry_ok m \<Longrightarrow> registry_ok (fst (wait_iteration ev remaining (m, w)))"
  by (simp add: wait_iteration_def wait_left_ok)

lemma loop_step_ok:
  assumes "registry_ok m"
  shows "registry_ok (fst (task_loop_step e ev (m, w)))"
  using assms cycle_ok [OF assms] ended_ok [OF assms] wait_iteration_ok [OF assms]
  by (auto simp: task_loop_step_def split: option.splits prod.splits nat.splits)

lemma perform_ok:
  assumes "registry_ok (fst s)"
  shows "registry_ok (fst (perform e a s))"
proof (cases s)
  case (Pair m w)
  with assms show ?thesis
    by (cases a) (simp_all add: start_ok stop_ok loop_step_ok)
qed

lemma perform_all_ok: "registry_ok (fst s) \<Longrightarrow> registry_ok (fst (perform_all e acts s))"
  by (induction acts arbitrary: s) (simp_all add: perform_ok)

lemma uncancelled_le_one:
  assumes "registry_ok m"
  shows "length (uncancelled c m) \<le> 1"
proof -
  have d: "distinct (map snd (uncancelled c m))"
    using assms by (simp add: registry_ok_def uncancelled_def distinct_map_filter)
  have "\<forall>x \<in> set (uncancelled c m). threads m c = Some (snd x)"
    using assms by (force simp: registry_ok_def uncancelled_def)
  then have sub: "set (map snd (uncancelled c m)) \<subseteq> {ev. threads m c = Some ev}"
    by auto
  have "card {ev. threads m c = Some ev} \<le> 1" and fin: "finite {ev. threads m c = Some ev}"
    by (cases "threads m c"; simp)+
  with sub have "card (set (map snd (uncancelled c m))) \<le> 1"
    using card_mono [OF fin sub] by simp
  moreover have "card (set (map snd (uncancelled c m))) = length (map snd (uncancelled c m))"
    using d by (rule distinct_card)
  ultimately show ?thesis
    by simp
qed


lemma start_when_registered:
  assumes "threads m c \<noteq> None"
  shows "threads (fst (snd (start_liker_task e c (m, w)))) = threads m \<and>
         running (fst (snd (start_liker_task e c (m, w)))) = running m \<and>
         stop_events (fst (snd (start_liker_task e c (m, w)))) = stop_events m \<and>
         next_event (fst (snd (start_liker_task e c (m, w)))) = next_event m"
proof -
  obtain config m1 where g: "get_config c m = (config, m1)"
    by (cases "get_config c m")
  have same: "threads m1 = threads m" "running m1 = running m"
    "stop_events m1 = stop_events m" "next_event m1 = next_event m"
    using get_config_same [of c m] g by simp_all
  show ?thesis
    using g assms same
    by (simp add: start_liker_task_def split: prod.splits)
qed

lemma stop_then_start:
  assumes ok: "registry_ok m"
    and reg: "threads m c \<noteq> None"
    and sent: "notifier e (notifier_calls w) = Delivered"
    and complete: "check_config_complete (fst (get_config c m))"
  shows "threads (fst (snd (stop_liker_task e c (m, w)))) c = None \<and>
         running (fst (snd (start_liker_task e c (snd (stop_liker_task e c (m, w))))))
           = running m @ [(c, next_event m)] \<and>
         threads (fst (snd (start_liker_task e c (snd (stop_liker_task e c (m, w)))))) c
           = Some (next_event m) \<and>
         uncancelled c (fst (snd (start_liker_task e c (snd (stop_liker_task e c (m, w))))))
           = [(c, next_event m)]"
proof -
  from reg obtain ev0 where ev0: "threads m c = Some ev0" by auto
  let ?m1 = "m\<lparr>stop_events := insert ev0 (stop_events m), threads := (threads m)(c := None)\<rparr>"
  let ?w1 = "w\<lparr>notifier_calls := notifier_calls w + 1, trace := trace w @ [Sent MsgStopping]\<rparr>"
  have stop: "snd (stop_liker_task e c (m, w)) = (?m1, ?w1)"
    using ev0 sent
    by (simp add: stop_liker_task_def send_message_def notify_def Let_def set_and_pop_def)
  have cfg: "fst (get_config c ?m1) = fst (get_config c m)"
    by (simp add: get_config_def split: option.splits)
  obtain config m2 where g: "get_config c ?m1 = (config, m2)"
    by (cases "get_config c ?m1")
  then have m2: "m2 = snd (get_config c ?m1)" and config: "config = fst (get_config c m)"
    using cfg by simp_all
  have same: "threads m2 = threads ?m1" "running m2 = running ?m1"
    "stop_events m2 = stop_events ?m1" "next_event m2 = next_event ?m1"
    by (simp_all add: m2 get_config_same del: manager.simps)
  let ?m3 = "m2\<lparr>next_event := next_event m2 + 1,
                threads := (threads m2)(c \<mapsto> next_event m2),
                running := running m2 @ [(c, next_event m2)],
                wait_left := (wait_left m2)(next_event m2 := 0)\<rparr>"
  have start: "fst (snd (start_liker_task e c (?m1, ?w1))) = ?m3"
    using g complete config same
    by (auto simp: start_liker_task_def Let_def split: prod.splits)
  have fresh: "next_event m \<notin> insert ev0 (stop_events m)"
    using ok ev0 by (auto simp: registry_ok_def)
  have old: "filter (\<lambda>(c', v). c' = c \<and> v \<notin> insert ev0 (stop_events m)) (running m) = []"
  proof -
    have "\<not> (c' = c \<and> v \<notin> insert ev0 (stop_events m))" if "(c', v) \<in> set (running m)" for c' v
    proof
      assume a: "c' = c \<and> v \<notin> insert ev0 (stop_events m)"
      with that ok have "threads m c = Some v"
        by (simp add: registry_ok_def)
      with ev0 a show False by simp
    qed
    then show ?thesis
      by (auto simp: filter_empty_conv)
  qed
  show ?thesis
    using stop start same fresh old
    by (simp add: uncancelled_def)
qed

text \<open>
  Claim C7, as the code has it. In every state the manager can reach: starting a session
  that is registered in \<^verbatim>\<open>threads\<close> changes neither the registry nor the running
  executions; a session has at most one running execution that has not been told to stop;
  and once \<^verbatim>\<open>stop\<close> has removed the entry of a session, a \<^verbatim>\<open>start\<close> with a complete
  configuration registers and launches a new execution, which is then the only one of
  that session not told to stop. An execution that was told to stop stays alive until
  its loop next tests the event.
\<close>

theorem one_uncancelled_execution:
  assumes reach: "perform_all e acts (init_manager loaded, w0) = (m, w)"
  shows
    "(threads m c \<noteq> None \<longrightarrow>
        threads (fst (snd (start_liker_task e c (m, w)))) = threads m \<and>
        running (fst (snd (start_liker_task e c (m, w)))) = running m \<and>
        stop_events (fst (snd (start_liker_task e c (m, w)))) = stop_events m) \<and>
     length (uncancelled c m) \<le> 1 \<and>
     (threads m c \<noteq> None \<and> notifier e (notifier_calls w) = Delivered \<and>
      check_config_complete (fst (get_config c m)) \<longrightarrow>
        threads (fst (snd (stop_liker_task e c (m, w)))) c = None \<and>
        running (fst (snd (start_liker_task e c (snd (stop_liker_task e c (m, w))))))
          = running m @ [(c, next_event m)] \<and>
        threads (fst (snd (start_liker_task e c (snd (stop_liker_task e c (m, w)))))) c
          = Some (next_event m) \<and>
        uncancelled c (fst (snd (start_liker_task e c (snd (stop_liker_task e c (m, w))))))
          = [(c, next_event m)])"
proof -
  have "registry_ok (fst (perform_all e acts (init_manager loaded, w0)))"
    by (rule perform_all_ok) (simp add: init_ok)
  with reach have ok: "registry_ok m" by simp
  show ?thesis
    using start_when_registered [of m c e w] uncancelled_le_one [OF ok, of c]
          stop_then_start [OF ok, of c e w]
    by blast
qed

lemma started_once_registered: "threads (fst started_once) 7 = Some 0"
  unfolding started_once_def by code_simp

lemma started_once_complete: "check_config_complete (fst (get_config 7 (fst started_once)))"
  unfolding started_once_def by code_simp

lemma started_once_next: "next_event (fst started_once) = 1"
  unfolding started_once_def by code_simp

lemma started_once_running: "running (fst started_once) = [(7, 0)]"
  unfolding started_once_def by code_simp

theorem one_uncancelled_execution_witness:
  "threads (fst started_once) 7 = Some 0 \<and>
   check_config_complete (fst (get_config 7 (fst started_once))) \<and>
   running (fst (snd (start_liker_task calm_env 7 started_once))) = [(7, 0)] \<and>
   length (uncancelled 7 (fst started_once)) \<le> 1 \<and>
   threads (fst (snd (stop_liker_task calm_env 7 started_once))) 7 = None \<and>
   running (fst (snd (start_liker_task calm_env 7 (snd (stop_liker_task calm_env 7 started_once)))))
     = [(7, 0), (7, 1)] \<and>
   uncancelled 7 (fst (snd (start_liker_task calm_env 7 (snd (stop_liker_task calm_env 7 started_once)))))
     = [(7, 1)]"
proof -
  have reach: "perform_all calm_env [Start 7] (init_manager sample_settings, fresh_world)
                 = (fst started_once, snd started_once)"
    by (simp add: started_once_def)
  have sent: "notifier calm_env (notifier_calls (snd started_once)) = Delivered"
    by (simp add: calm_env_def)
  show ?thesis
    using one_uncancelled_execution [OF reach, of 7] started_once_registered started_once_complete sent
          started_once_next started_once_running
    by simp
qed

text \<open>
  Claim C7, as stated, at a concrete input: after start, stop, start of one session, two
  of its background executions are alive, the first still waiting to see its stop event.
\<close>

theorem two_alive_counterexample:
  "alive 7 (fst (perform_all calm_env [Start 7, Stop 7, Start 7] (init_manager sample_settings, fresh_world)))
     = [(7, 0), (7, 1)]"
  by code_simp

end
